theory Spec2Isabelle
  imports Complex_Main "HOL-Library.Sublist"
begin

section \<open>Strings\<close>

text \<open>
  Go strings are byte sequences (UTF-8); they are modelled by \<^typ>\<open>string\<close>, one
  \<^typ>\<open>char\<close> per byte.  The euro sign is the three bytes E2 82 AC.
\<close>

definition euro :: string where
  "euro = [CHR 0xE2, CHR 0x82, CHR 0xAC]"

text \<open>The regexp class \<^verbatim>\<open>\d\<close> of Go is the ASCII digits, \<^verbatim>\<open>[.,]\<close> the two separators.\<close>

definition isDigit :: "char \<Rightarrow> bool" where
  "isDigit c = (c \<in> set ''0123456789'')"

definition isSep :: "char \<Rightarrow> bool" where
  "isSep c = (c = CHR ''.'' \<or> c = CHR '','')"

text \<open>\<^verbatim>\<open>strings.Contains(s, "c")\<close> for a one-byte needle.\<close>

definition Contains :: "string \<Rightarrow> char \<Rightarrow> bool" where
  "Contains s c = (c \<in> set s)"

text \<open>\<^verbatim>\<open>strings.Count(s, "c")\<close> for a one-byte needle.\<close>

definition Count :: "string \<Rightarrow> char \<Rightarrow> nat" where
  "Count s c = length (filter (\<lambda>x. x = c) s)"

text \<open>\<^verbatim>\<open>strings.ReplaceAll(s, "c", "")\<close>: every occurrence of the byte is deleted.\<close>

definition RemoveAll :: "string \<Rightarrow> char \<Rightarrow> string" where
  "RemoveAll s c = filter (\<lambda>x. x \<noteq> c) s"

text \<open>\<^verbatim>\<open>strings.Replace(s, "a", "b", 1)\<close>: only the first occurrence is replaced.\<close>

fun ReplaceFirst :: "string \<Rightarrow> char \<Rightarrow> char \<Rightarrow> string" where
  "ReplaceFirst [] a b = []"
| "ReplaceFirst (x # xs) a b = (if x = a then b # xs else x # ReplaceFirst xs a b)"

text \<open>\<^verbatim>\<open>strings.Split(s, "c")\<close> for a one-byte separator: never empty, one more part
  than there are separators.\<close>

fun Split :: "string \<Rightarrow> char \<Rightarrow> string list" where
  "Split [] c = [[]]"
| "Split (x # xs) c =
     (if x = c then [] # Split xs c
      else (case Split xs c of [] \<Rightarrow> [[x]] | p # ps \<Rightarrow> (x # p) # ps))"

subsection \<open>strings.TrimSpace\<close>

text \<open>
  \<^verbatim>\<open>strings.TrimSpace\<close> removes leading and trailing runes with Unicode property
  White_Space.  On bytes these are exactly the following UTF-8 encodings: TAB, LF, VT, FF,
  CR, SPACE, U+0085, U+00A0, U+1680, U+2000..U+200A, U+2028, U+2029, U+202F, U+205F,
  U+3000.  Any other byte sequence (also an ill-formed one) decodes to a rune that is not
  white space and stops the trimming.
\<close>

definition spaceRunes :: "string list" where
  "spaceRunes =
    [[CHR 0x09], [CHR 0x0A], [CHR 0x0B], [CHR 0x0C], [CHR 0x0D], [CHR 0x20],
     [CHR 0xC2, CHR 0x85], [CHR 0xC2, CHR 0xA0],
     [CHR 0xE1, CHR 0x9A, CHR 0x80],
     [CHR 0xE2, CHR 0x80, CHR 0x80], [CHR 0xE2, CHR 0x80, CHR 0x81],
     [CHR 0xE2, CHR 0x80, CHR 0x82], [CHR 0xE2, CHR 0x80, CHR 0x83],
     [CHR 0xE2, CHR 0x80, CHR 0x84], [CHR 0xE2, CHR 0x80, CHR 0x85],
     [CHR 0xE2, CHR 0x80, CHR 0x86], [CHR 0xE2, CHR 0x80, CHR 0x87],
     [CHR 0xE2, CHR 0x80, CHR 0x88], [CHR 0xE2, CHR 0x80, CHR 0x89],
     [CHR 0xE2, CHR 0x80, CHR 0x8A],
     [CHR 0xE2, CHR 0x80, CHR 0xA8], [CHR 0xE2, CHR 0x80, CHR 0xA9],
     [CHR 0xE2, CHR 0x80, CHR 0xAF], [CHR 0xE2, CHR 0x81, CHR 0x9F],
     [CHR 0xE3, CHR 0x80, CHR 0x80]]"

text \<open>The length in bytes of the white-space rune at the front of the string, 0 when the
  first rune is not white space.\<close>

definition spaceAt :: "string list \<Rightarrow> string \<Rightarrow> nat" where
  "spaceAt runes s = (case find (\<lambda>r. prefix r s) runes of None \<Rightarrow> 0 | Some r \<Rightarrow> length r)"

function trimFront :: "string list \<Rightarrow> string \<Rightarrow> string" where
  "trimFront runes s =
     (if spaceAt runes s = 0 then s else trimFront runes (drop (spaceAt runes s) s))"
  by pat_completeness auto
termination
proof (relation "measure (\<lambda>(runes, s). length s)")
  show "wf (measure (\<lambda>(runes, s). length s))" by simp
next
  fix runes :: "string list" and s :: string
  assume nz: "spaceAt runes s \<noteq> 0"
  then obtain r where f: "find (\<lambda>r. prefix r s) runes = Some r" and l: "spaceAt runes s = length r"
    by (auto simp: spaceAt_def split: option.splits)
  from f have "prefix r s" by (auto simp: find_Some_iff)
  with nz l have "s \<noteq> []" by auto
  with nz show "((runes, drop (spaceAt runes s) s), (runes, s)) \<in> measure (\<lambda>(runes, s). length s)"
    by simp
qed

declare trimFront.simps [simp del]

text \<open>Trailing runes are decoded backwards by Go; a white-space rune ends the string exactly
  when its encoding is a suffix, so the back is trimmed on the reversed bytes.\<close>

definition TrimSpace :: "string \<Rightarrow> string" where
  "TrimSpace s = rev (trimFront (map rev spaceRunes) (rev (trimFront spaceRunes s)))"

section \<open>Price normalizer\<close>

text \<open>
  The Go pattern is \<^verbatim>\<open>(\d{1,3}(?:[.,]\d{3})*(?:[.,]\d{1,2})?)\<close>, matched leftmost-first
  (Perl rules).  Every part after the first digit may match the empty string, so the match
  starts at the first digit of the text and each greedy part takes all it can:
  \<^item> \<open>digits3\<close>: up to three digits;
  \<^item> \<open>thousands\<close>: as many groups "separator, three digits" as follow;
  \<^item> \<open>decimals\<close>: then one optional "separator, one or two digits".
\<close>

definition digits3 :: "string \<Rightarrow> string" where
  "digits3 s = takeWhile isDigit (take 3 s)"

fun thousands :: "string \<Rightarrow> string \<times> string" where
  "thousands (s # a # b # c # rest) =
     (if isSep s \<and> isDigit a \<and> isDigit b \<and> isDigit c
      then (case thousands rest of (g, r) \<Rightarrow> (s # a # b # c # g, r))
      else ([], s # a # b # c # rest))"
| "thousands xs = ([], xs)"

fun decimals :: "string \<Rightarrow> string" where
  "decimals (s # a # rest) =
     (if isSep s \<and> isDigit a then s # a # takeWhile isDigit (take 1 rest) else [])"
| "decimals xs = []"

definition matchAt :: "string \<Rightarrow> string" where
  "matchAt s =
     (let d = digits3 s in
      case thousands (drop (length d) s) of (g, r) \<Rightarrow> d @ g @ decimals r)"

text \<open>\<^verbatim>\<open>re.FindStringSubmatch(priceText)\<close>: \<open>None\<close> is the nil slice (no match); otherwise
  the slice has two entries, both the matched text, and \<open>matches[1]\<close> is returned.\<close>

definition FindStringSubmatch :: "string \<Rightarrow> string option" where
  "FindStringSubmatch s =
     (case dropWhile (\<lambda>c. \<not> isDigit c) s of [] \<Rightarrow> None | r \<Rightarrow> Some (matchAt r))"

subsection \<open>strconv.ParseFloat\<close>

text \<open>
  The strings that reach \<^verbatim>\<open>strconv.ParseFloat\<close> consist of digits and separators only
  (signs, exponents, hexadecimal, "inf" and "nan" cannot arise from the pattern), so
  the decimal grammar suffices: digits, an optional point, digits, with at least one digit.
  A float64 is modelled by the exact decimal value that the text denotes (Go returns the
  nearest float64).  A value of at least \<open>2^1024 - 2^970\<close> (the largest float64 plus half a
  unit in the last place) is the range error of Go.
\<close>

definition digitVal :: "char \<Rightarrow> nat" where
  "digitVal c = of_char c - 48"

definition digitsValue :: "string \<Rightarrow> nat" where
  "digitsValue ds = foldl (\<lambda>n c. 10 * n + digitVal c) 0 ds"

definition float64Limit :: rat where
  "float64Limit = 2 ^ 1024 - 2 ^ 970"

definition inRange :: "rat \<Rightarrow> rat option" where
  "inRange v = (if v < float64Limit then Some v else None)"

definition ParseFloat :: "string \<Rightarrow> rat option" where
  "ParseFloat s =
     (let ip = takeWhile isDigit s; r = dropWhile isDigit s in
      case r of
        [] \<Rightarrow> (if ip = [] then None else inRange (of_nat (digitsValue ip)))
      | c # fp \<Rightarrow>
          (if c = CHR ''.'' \<and> list_all isDigit fp \<and> (ip \<noteq> [] \<or> fp \<noteq> [])
           then inRange (of_nat (digitsValue ip) + of_nat (digitsValue fp) / 10 ^ length fp)
           else None))"

subsection \<open>extractNumericPrice\<close>

text \<open>The three-way choice of the separator format, on the matched text \<open>priceStr\<close> and
  the whole input \<open>priceText\<close>.\<close>

definition normalizeSeparators :: "string \<Rightarrow> string \<Rightarrow> string" where
  "normalizeSeparators priceText priceStr =
     (if Contains priceStr (CHR ''.'') \<and> Contains priceStr (CHR '','')
      then ReplaceFirst (RemoveAll priceStr (CHR ''.'')) (CHR '','') (CHR ''.'')
      else if Count priceStr (CHR ''.'') = 1
      then (let parts = Split priceStr (CHR ''.'') in
            if length parts = 2 \<and> length (parts ! 1) = 3 \<and> \<not> Contains priceText (CHR '','')
            then RemoveAll priceStr (CHR ''.'')
            else priceStr)
      else if Contains priceStr (CHR '','')
      then ReplaceFirst priceStr (CHR '','') (CHR ''.'')
      else priceStr)"

definition extractNumericPrice :: "string \<Rightarrow> rat" where
  "extractNumericPrice priceText =
     (case FindStringSubmatch priceText of
        None \<Rightarrow> 0
      | Some priceStr \<Rightarrow>
          (case ParseFloat (normalizeSeparators priceText priceStr) of
             Some price \<Rightarrow> price
           | None \<Rightarrow> 0))"

text \<open>Vocabulary for stating what the normalizer computes: a digit string, a text that
  cannot continue a number, and the value of an integer part with a fraction part.\<close>

definition digits :: "string \<Rightarrow> bool" where
  "digits s = list_all isDigit s"

definition delimited :: "string \<Rightarrow> bool" where
  "delimited post = (case post of [] \<Rightarrow> True | c # _ \<Rightarrow> \<not> isDigit c \<and> \<not> isSep c)"

definition decimalValue :: "string \<Rightarrow> string \<Rightarrow> rat" where
  "decimalValue ip fp = of_nat (digitsValue ip) + of_nat (digitsValue fp) / 10 ^ length fp"

section \<open>Offers and the criteria matcher\<close>

text \<open>
  \<^verbatim>\<open>CardOffer\<close> keeps the field names of the Go struct.  The other structs share field
  names with it (Price, Rarity, Language, ...), so their fields carry a prefix:
  \<open>info_\<close> for \<^verbatim>\<open>ScrapedCardInfo\<close>, \<open>req_\<close> for \<^verbatim>\<open>AddCardRequest\<close>, \<open>card_\<close> for
  \<^verbatim>\<open>Card\<close>.
\<close>

record CardOffer =
  Mint :: string
  Language :: string
  Edition :: bool
  Price :: string
  PriceNum :: rat
  Rarity :: string
  SetName :: string

record ScrapedCardInfo =
  info_Name :: string
  info_Set :: string
  info_Rarity :: string
  info_Price :: string
  info_PriceNum :: rat
  info_ImageURL :: string
  info_Offers :: "CardOffer list"

record AddCardRequest =
  req_URL :: string
  req_Type :: string
  req_Quality :: string
  req_Language :: string
  req_Edition :: bool

text \<open>\<^verbatim>\<open>findTheCard\<close> (app.go): the first row whose three attributes equal the criteria;
  \<open>None\<close> is the nil pointer.  The Go code returns the address of the loop variable, a
  copy of the row.\<close>

fun findTheCard :: "CardOffer list \<Rightarrow> string \<Rightarrow> string \<Rightarrow> bool \<Rightarrow> CardOffer option" where
  "findTheCard [] quality langue edition = None"
| "findTheCard (row # rest) quality langue edition =
     (if Mint row = quality \<and> Language row = langue \<and> Edition row = edition
      then Some row
      else findTheCard rest quality langue edition)"

text \<open>\<^verbatim>\<open>findBestOffer\<close> (helpers.go) is the same loop.\<close>

fun findBestOffer :: "CardOffer list \<Rightarrow> string \<Rightarrow> string \<Rightarrow> bool \<Rightarrow> CardOffer option" where
  "findBestOffer [] quality language edition = None"
| "findBestOffer (offer # rest) quality language edition =
     (if Mint offer = quality \<and> Language offer = language \<and> Edition offer = edition
      then Some offer
      else findBestOffer rest quality language edition)"

text \<open>Vocabulary: an offer whose triple equals the criteria.\<close>

definition matches :: "string \<Rightarrow> string \<Rightarrow> bool \<Rightarrow> CardOffer \<Rightarrow> bool" where
  "matches quality langue edition row =
     (Mint row = quality \<and> Language row = langue \<and> Edition row = edition)"

subsection \<open>The matcher on an explicit store\<close>

text \<open>
  To follow the pointers of the Go code, offers live in cells of a memory and an address is
  an index into it.  The slice handed to \<^verbatim>\<open>findTheCard\<close> is the list of the addresses of
  its elements.  Each iteration copies the element into the loop variable \<open>row\<close>, a fresh
  cell, and a match returns the address of that cell.
\<close>

type_synonym memory = "CardOffer list"

fun findTheCard_ref ::
  "memory \<Rightarrow> nat list \<Rightarrow> string \<Rightarrow> string \<Rightarrow> bool \<Rightarrow> memory \<times> nat option" where
  "findTheCard_ref mem [] quality langue edition = (mem, None)"
| "findTheCard_ref mem (p # ps) quality langue edition =
     (let row = length mem; mem' = mem @ [mem ! p] in
      if Mint (mem' ! row) = quality \<and> Language (mem' ! row) = langue
         \<and> Edition (mem' ! row) = edition
      then (mem', Some row)
      else findTheCard_ref mem' ps quality langue edition)"

section \<open>The page as the browser reports it\<close>

text \<open>
  The browser is the environment of the program.  A \<open>page\<close> records what each query of the
  code returns on one loaded page: whether a step fails, and the values that the evaluated
  scripts give back.  A script result is an error, \<^verbatim>\<open>null\<close>, or an object whose fields
  are read with Go type assertions.
\<close>

datatype js_value = JBool bool | JString string | JNumber int | JNull

datatype eval_result = EvalError | EvalNull | EvalObject "(string \<times> js_value) list"

record page =
  nav_ok :: bool
  body_ok :: bool
  rows_count :: "nat option"
  rows :: "nat \<Rightarrow> eval_result"
  alt_count :: "string \<Rightarrow> nat option"
  h1_text :: "string option"
  page_info :: eval_result

text \<open>
  \<^item> \<open>nav_ok\<close>: \<^verbatim>\<open>Navigate(url)\<close> and \<^verbatim>\<open>WaitVisible("body")\<close> of \<^verbatim>\<open>getPage\<close> succeed;
  \<^item> \<open>body_ok\<close>: the wait for the body at the start of \<^verbatim>\<open>getInfos\<close> succeeds;
  \<^item> \<open>rows_count\<close>: the number of elements of class article-row (\<open>None\<close>: the evaluation
    fails);
  \<^item> \<open>rows i\<close>: the result of the extraction script on row \<open>i\<close>;
  \<^item> \<open>alt_count sel\<close>: the number of elements that match an alternative selector;
  \<^item> \<open>h1_text\<close>: the text of the first heading (\<open>None\<close>: the query fails);
  \<^item> \<open>page_info\<close>: the result of the script that reads rarity and set of the card.
\<close>

text \<open>The type assertions \<^verbatim>\<open>v.(string)\<close> and \<^verbatim>\<open>v.(bool)\<close> on a field of a script
  result; a missing field is \<open>None\<close>.\<close>

definition asString :: "js_value option \<Rightarrow> string option" where
  "asString v = (case v of Some (JString s) \<Rightarrow> Some s | _ \<Rightarrow> None)"

definition asBool :: "js_value option \<Rightarrow> bool option" where
  "asBool v = (case v of Some (JBool b) \<Rightarrow> Some b | _ \<Rightarrow> None)"

text \<open>A string field, trimmed, or the empty string when the assertion fails.\<close>

definition trimmedField :: "(string \<rightharpoonup> js_value) \<Rightarrow> string \<Rightarrow> string" where
  "trimmedField cardData key =
     (case asString (cardData key) of Some v \<Rightarrow> TrimSpace v | None \<Rightarrow> [])"

section \<open>Offer extractor\<close>

text \<open>The body of the row loop of \<^verbatim>\<open>getInfos\<close>: \<open>None\<close> is \<^verbatim>\<open>continue\<close> (script error, null
  data, or no \<^verbatim>\<open>success\<close> flag), otherwise the offer that is appended.\<close>

definition rowOffer :: "eval_result \<Rightarrow> CardOffer option" where
  "rowOffer r =
     (case r of
        EvalError \<Rightarrow> None
      | EvalNull \<Rightarrow> None
      | EvalObject obj \<Rightarrow>
          (let cardData = map_of obj in
           case asBool (cardData ''success'') of
             None \<Rightarrow> None
           | Some success \<Rightarrow>
               if \<not> success then None
               else
                 (let mint = trimmedField cardData ''mint'';
                      langue = trimmedField cardData ''langue'';
                      price = trimmedField cardData ''price'';
                      rarity = trimmedField cardData ''rarity'';
                      setName = trimmedField cardData ''set_name'';
                      edition = (case asBool (cardData ''edition'') of Some v \<Rightarrow> v | None \<Rightarrow> False)
                  in Some \<lparr>Mint = mint, Language = langue, Edition = edition, Price = price,
                           PriceNum = extractNumericPrice price, Rarity = rarity,
                           SetName = setName\<rparr>)))"

text \<open>The row loop of \<^verbatim>\<open>getInfosPatient\<close>: rarity and set are not read.\<close>

definition rowOfferPatient :: "eval_result \<Rightarrow> CardOffer option" where
  "rowOfferPatient r =
     (case r of
        EvalError \<Rightarrow> None
      | EvalNull \<Rightarrow> None
      | EvalObject obj \<Rightarrow>
          (let cardData = map_of obj in
           case asBool (cardData ''success'') of
             None \<Rightarrow> None
           | Some success \<Rightarrow>
               if \<not> success then None
               else
                 (let mint = (case asString (cardData ''mint'') of Some v \<Rightarrow> v | None \<Rightarrow> []);
                      langue = (case asString (cardData ''langue'') of Some v \<Rightarrow> v | None \<Rightarrow> []);
                      price = (case asString (cardData ''price'') of Some v \<Rightarrow> v | None \<Rightarrow> []);
                      edition = (case asBool (cardData ''edition'') of Some v \<Rightarrow> v | None \<Rightarrow> False)
                  in Some \<lparr>Mint = TrimSpace mint, Language = TrimSpace langue, Edition = edition,
                           Price = TrimSpace price,
                           PriceNum = extractNumericPrice (TrimSpace price), Rarity = [],
                           SetName = []\<rparr>)))"

text \<open>\<^verbatim>\<open>for i := 0; i < rowsCount; i++\<close>: \<open>k\<close> rows remain from index \<open>i\<close>, \<open>res\<close> is the slice
  built so far.\<close>

fun processRows ::
  "(eval_result \<Rightarrow> CardOffer option) \<Rightarrow> (nat \<Rightarrow> eval_result) \<Rightarrow> nat \<Rightarrow> nat \<Rightarrow> CardOffer list
   \<Rightarrow> CardOffer list" where
  "processRows body rws i 0 res = res"
| "processRows body rws i (Suc k) res =
     processRows body rws (Suc i) k
       (case body (rws i) of None \<Rightarrow> res | Some cardOffer \<Rightarrow> res @ [cardOffer])"

datatype extract_error = WaitPageError | CountRowsError

definition alternativeSelectors :: "string list" where
  "alternativeSelectors =
     [''tr[data-product]'', ''.product-row'', ''.item-row'', ''[class*='article']'',
      ''[class*='product']'']"

text \<open>When no article-row is found, the alternative selectors are counted and the
  non-zero counts are written to the log; nothing else is done with them.\<close>

definition probeAlternatives :: "page \<Rightarrow> (string \<times> nat) list" where
  "probeAlternatives pg =
     List.map_filter
       (\<lambda>altSelector. case alt_count pg altSelector of
            None \<Rightarrow> None
          | Some altCount \<Rightarrow> if altCount > 0 then Some (altSelector, altCount) else None)
       alternativeSelectors"

text \<open>\<^verbatim>\<open>getInfos\<close> returns the log lines of the alternative selectors and the Go result
  (offers or error).\<close>

definition getInfos :: "page \<Rightarrow> (string \<times> nat) list \<times> (extract_error + CardOffer list)" where
  "getInfos pg =
     (if \<not> body_ok pg then ([], Inl WaitPageError)
      else case rows_count pg of
          None \<Rightarrow> ([], Inl CountRowsError)
        | Some rowsCount \<Rightarrow>
            if rowsCount = 0 then (probeAlternatives pg, Inr [])
            else ([], Inr (processRows rowOffer (rows pg) 0 rowsCount [])))"

definition getInfosPatient :: "page \<Rightarrow> extract_error + CardOffer list" where
  "getInfosPatient pg =
     (if \<not> body_ok pg then Inl WaitPageError
      else case rows_count pg of
          None \<Rightarrow> Inl CountRowsError
        | Some rowsCount \<Rightarrow>
            if rowsCount = 0 then Inr []
            else Inr (processRows rowOfferPatient (rows pg) 0 rowsCount []))"

section \<open>Page session\<close>

datatype page_error = NavigationError

text \<open>\<^verbatim>\<open>getPage\<close> and \<^verbatim>\<open>getPagePatient\<close> fail only when the navigation fails; the waits, the
  cookie banner and the "load more" button are logged and never returned as an error.  What
  the extra loading changes is in the page that the environment serves.\<close>

definition getPage :: "bool \<Rightarrow> page \<Rightarrow> page_error option" where
  "getPage moreLoad pg = (if nav_ok pg then None else Some NavigationError)"

definition getPagePatient :: "bool \<Rightarrow> page \<Rightarrow> page_error option" where
  "getPagePatient moreLoad pg = (if nav_ok pg then None else Some NavigationError)"

definition launchLoop :: "string \<Rightarrow> string \<Rightarrow> bool \<Rightarrow> bool \<Rightarrow> page \<Rightarrow> CardOffer option" where
  "launchLoop quality langue edition load pg =
     (case getPage load pg of
        Some err \<Rightarrow> None
      | None \<Rightarrow>
          (case snd (getInfos pg) of
             Inl err \<Rightarrow> None
           | Inr res \<Rightarrow> findTheCard res quality langue edition))"

definition launchLoopPatient ::
  "string \<Rightarrow> string \<Rightarrow> bool \<Rightarrow> bool \<Rightarrow> page \<Rightarrow> CardOffer option" where
  "launchLoopPatient quality langue edition load pg =
     (case getPagePatient load pg of
        Some err \<Rightarrow> None
      | None \<Rightarrow>
          (case getInfosPatient pg of
             Inl err \<Rightarrow> None
           | Inr res \<Rightarrow> findTheCard res quality langue edition))"

section \<open>Fixtures\<close>

text \<open>Concrete offers and pages on which the properties below are evaluated.\<close>

definition offer_nm_en_plain :: CardOffer where
  "offer_nm_en_plain =
     \<lparr>Mint = ''NM'', Language = ''English'', Edition = False, Price = ''2.00'' @ euro,
      PriceNum = 2, Rarity = [], SetName = []\<rparr>"

definition offer_nm_en_first :: CardOffer where
  "offer_nm_en_first =
     \<lparr>Mint = ''NM'', Language = ''English'', Edition = True, Price = ''5.00'' @ euro,
      PriceNum = 5, Rarity = [], SetName = []\<rparr>"

definition offer_nm_en_cheap :: CardOffer where
  "offer_nm_en_cheap =
     \<lparr>Mint = ''NM'', Language = ''English'', Edition = False, Price = ''1.00'' @ euro,
      PriceNum = 1, Rarity = [], SetName = []\<rparr>"

text \<open>A row as the extraction script returns it.\<close>

definition row_object :: "string \<Rightarrow> string \<Rightarrow> bool \<Rightarrow> string \<Rightarrow> eval_result" where
  "row_object mint langue edition price =
     EvalObject [(''mint'', JString mint), (''langue'', JString langue),
                 (''edition'', JBool edition), (''price'', JString price),
                 (''success'', JBool True), (''rarity'', JString []), (''set_name'', JString [])]"

text \<open>A page without any article-row element whose offers sit in a plain table: three table
  rows match the first alternative selector.\<close>

definition table_page :: page where
  "table_page =
     \<lparr>nav_ok = True, body_ok = True, rows_count = Some 0, rows = (\<lambda>i. EvalNull),
      alt_count = (\<lambda>sel. if sel = ''tr[data-product]'' then Some 3 else Some 0),
      h1_text = Some ''Dark Magician'', page_info = EvalNull\<rparr>"

text \<open>A page with two article rows; the price of the second has no digit.\<close>

definition two_row_page :: page where
  "two_row_page =
     \<lparr>nav_ok = True, body_ok = True, rows_count = Some 2,
      rows = (\<lambda>i. if i = 0 then row_object ''NM'' ''English'' True (''5,00 '' @ euro)
                   else row_object ''NM'' ''English'' False ''N/A''),
      alt_count = (\<lambda>sel. Some 0),
      h1_text = Some ''Dark Magician'', page_info = EvalNull\<rparr>"

text \<open>A card page whose info block gives the rarity and the set.\<close>

definition info_page :: page where
  "info_page =
     \<lparr>nav_ok = True, body_ok = True, rows_count = Some 0, rows = (\<lambda>i. EvalNull),
      alt_count = (\<lambda>sel. Some 0), h1_text = Some '' Dark Magician '',
      page_info = EvalObject [(''rarity'', JString ''Rare''), (''set_name'', JString ''LOB'')]\<rparr>"

text \<open>A card page without heading and without info block.\<close>

definition bare_page :: page where
  "bare_page =
     \<lparr>nav_ok = True, body_ok = True, rows_count = Some 0, rows = (\<lambda>i. EvalNull),
      alt_count = (\<lambda>sel. Some 0), h1_text = None, page_info = EvalError\<rparr>"

text \<open>A page with one article row: a first edition in English, near mint.\<close>

definition first_edition_page :: page where
  "first_edition_page =
     \<lparr>nav_ok = True, body_ok = True, rows_count = Some 1,
      rows = (\<lambda>i. row_object ''NM'' ''English'' True (''5,00 '' @ euro)),
      alt_count = (\<lambda>sel. Some 0),
      h1_text = Some ''Dark Magician'', page_info = EvalNull\<rparr>"

definition request :: "string \<Rightarrow> string \<Rightarrow> bool \<Rightarrow> AddCardRequest" where
  "request quality language edition =
     \<lparr>req_URL = ''https://www.cardmarket.com/card'', req_Type = ''wishlist'',
      req_Quality = quality, req_Language = language, req_Edition = edition\<rparr>"

section \<open>Card detail enricher\<close>

text \<open>The errors of the scraping functions, one constructor per message of the Go code:
  \<^item> \<open>NoMatchingCard q l e\<close>: "aucune carte correspondant aux criteres qualite=q, langue=l,
    edition=e" (the message echoes the three criteria);
  \<^item> \<open>BrowserConnectionFailed\<close>: "impossible de se connecter au navigateur: ..." of the
    standard mode;
  \<^item> \<open>ModeConnectionFailed mode\<close>: "connexion navigateur impossible en mode ...";
  \<^item> \<open>NoCardInMode mode\<close>: "aucune carte trouvee avec le mode ...";
  \<^item> \<open>AllModesFailed\<close>: "impossible de se connecter au navigateur apres tous les modes
    testes. Verifiez que Chrome ou Edge est installe et accessible".\<close>

datatype scrape_error =
    NoMatchingCard string string bool
  | BrowserConnectionFailed
  | ModeConnectionFailed string
  | NoCardInMode string
  | AllModesFailed

text \<open>The sentinel "Rarete inconnue", whose second "e" carries an acute accent in the source
  (the bytes C3 A9).\<close>

definition unknownRarity :: string where
  "unknownRarity = ''Raret'' @ [CHR 0xC3, CHR 0xA9] @ '' inconnue''"

definition emptyInfo :: ScrapedCardInfo where
  "emptyInfo =
     \<lparr>info_Name = [], info_Set = [], info_Rarity = [], info_Price = [], info_PriceNum = 0,
      info_ImageURL = [], info_Offers = []\<rparr>"

text \<open>The name: the text of the first heading, or "Carte inconnue" when the query fails or
  the text is empty; trimmed afterwards.\<close>

definition headingName :: "page \<Rightarrow> string" where
  "headingName pg =
     TrimSpace (case h1_text pg of
                  None \<Rightarrow> ''Carte inconnue''
                | Some name \<Rightarrow> if name = [] then ''Carte inconnue'' else name)"

text \<open>A field of the info script of \<^verbatim>\<open>extractCardDetails\<close>: empty unless the evaluation
  succeeds with an object whose field is a string.\<close>

definition infoField :: "page \<Rightarrow> string \<Rightarrow> string" where
  "infoField pg key =
     (case page_info pg of
        EvalError \<Rightarrow> []
      | EvalNull \<Rightarrow> []
      | EvalObject obj \<Rightarrow> trimmedField (map_of obj) key)"

text \<open>In \<^verbatim>\<open>scrapeCardInfo\<close> of app.go the script is evaluated twice, the first time into a
  value that is dropped; the fields are read only when the first evaluation succeeds.\<close>

definition infoFieldTwice :: "page \<Rightarrow> string \<Rightarrow> string" where
  "infoFieldTwice pg key =
     (case page_info pg of
        EvalError \<Rightarrow> []
      | _ \<Rightarrow> infoField pg key)"

text \<open>
  \<^verbatim>\<open>extractCardDetails(ctx, url, result, info)\<close>.  \<open>result\<close> is a pointer in Go: the function
  takes the offer it points to and returns, next to the Go result, the offer that the
  pointer designates afterwards.  The copy into \<open>Offers\<close> is made first, the writes into
  \<open>result\<close> come after it.
\<close>

definition extractCardDetails ::
  "page \<Rightarrow> CardOffer \<Rightarrow> ScrapedCardInfo \<Rightarrow> (scrape_error + ScrapedCardInfo) \<times> CardOffer" where
  "extractCardDetails pg result info =
     (let info = info\<lparr>info_Offers := [result], info_Price := Price result,
                      info_PriceNum := PriceNum result\<rparr>;
          info = info\<lparr>info_Name := headingName pg\<rparr>;
          rarityFromPage = infoField pg ''rarity'';
          setFromPage = infoField pg ''set_name'';
          (info, result) =
            (if setFromPage \<noteq> [] then
               (info\<lparr>info_Set := setFromPage\<rparr>, result\<lparr>SetName := setFromPage\<rparr>)
             else if SetName result \<noteq> [] then (info\<lparr>info_Set := SetName result\<rparr>, result)
             else (info\<lparr>info_Set := ''Set inconnu''\<rparr>, result));
          (info, result) =
            (if rarityFromPage \<noteq> [] then
               (info\<lparr>info_Rarity := rarityFromPage\<rparr>, result\<lparr>Rarity := rarityFromPage\<rparr>)
             else if Rarity result \<noteq> [] then (info\<lparr>info_Rarity := Rarity result\<rparr>, result)
             else (info\<lparr>info_Rarity := unknownRarity\<rparr>, result))
      in (Inr info, result))"

text \<open>The same step as written inside \<^verbatim>\<open>scrapeCardInfo\<close> of app.go (from "Extraire le nom"
  to the return): here the writes into \<open>result\<close> come first and the copy into \<open>Offers\<close> is
  made from the updated offer.\<close>

definition scrapeCardInfo_details ::
  "page \<Rightarrow> CardOffer \<Rightarrow> ScrapedCardInfo \<Rightarrow> (scrape_error + ScrapedCardInfo) \<times> CardOffer" where
  "scrapeCardInfo_details pg result info =
     (let info = info\<lparr>info_Name := headingName pg\<rparr>;
          rarityFromPage = infoFieldTwice pg ''rarity'';
          setFromPage = infoFieldTwice pg ''set_name'';
          (info, result) =
            (if setFromPage \<noteq> [] then
               (info\<lparr>info_Set := setFromPage\<rparr>, result\<lparr>SetName := setFromPage\<rparr>)
             else if SetName result \<noteq> [] then (info\<lparr>info_Set := SetName result\<rparr>, result)
             else (info\<lparr>info_Set := ''Set inconnu''\<rparr>, result));
          (info, result) =
            (if rarityFromPage \<noteq> [] then
               (info\<lparr>info_Rarity := rarityFromPage\<rparr>, result\<lparr>Rarity := rarityFromPage\<rparr>)
             else if Rarity result \<noteq> [] then (info\<lparr>info_Rarity := Rarity result\<rparr>, result)
             else (info\<lparr>info_Rarity := unknownRarity\<rparr>, result));
          info = info\<lparr>info_Offers := [result]\<rparr>;
          info = info\<lparr>info_Price := Price result, info_PriceNum := PriceNum result\<rparr>
      in (Inr info, result))"

text \<open>The two steps on the store: the pointer is an address, the offer it designates is read
  from the memory and the updated offer is written back to the same cell.\<close>

definition extractCardDetails_ref ::
  "memory \<Rightarrow> page \<Rightarrow> nat \<Rightarrow> ScrapedCardInfo \<Rightarrow> memory \<times> (scrape_error + ScrapedCardInfo)" where
  "extractCardDetails_ref mem pg result info =
     (case extractCardDetails pg (mem ! result) info of
        (r, v) \<Rightarrow> (mem[result := v], r))"

definition scrapeCardInfo_details_ref ::
  "memory \<Rightarrow> page \<Rightarrow> nat \<Rightarrow> ScrapedCardInfo \<Rightarrow> memory \<times> (scrape_error + ScrapedCardInfo)" where
  "scrapeCardInfo_details_ref mem pg result info =
     (case scrapeCardInfo_details pg (mem ! result) info of
        (r, v) \<Rightarrow> (mem[result := v], r))"

section \<open>Acquisition strategy\<close>

text \<open>
  The world outside the program, threaded through the calls:
  \<^item> \<open>goos\<close>: the value of \<^verbatim>\<open>runtime.GOOS\<close>;
  \<^item> \<open>connect_ok mode\<close>: whether the browser started under that configuration answers the
    connection test;
  \<^item> \<open>serve n load\<close>: the page that the \<open>n\<close>-th load of the listing shows, without or with
    the extra "load more" content;
  \<^item> \<open>loads\<close>: the number of page loads made so far;
  \<^item> \<open>attempts\<close>: the log of the acquisition attempts made so far, each with its
    configuration, its load depth and whether it found a matching card.
\<close>

record world =
  goos :: string
  connect_ok :: "string \<Rightarrow> bool"
  serve :: "nat \<Rightarrow> bool \<Rightarrow> page"
  loads :: nat
  attempts :: "(string \<times> bool \<times> bool) list"

text \<open>One call of \<^verbatim>\<open>launchLoop\<close> (or \<^verbatim>\<open>launchLoopPatient\<close>) in a world: it loads the next
  page and the attempt is logged.\<close>

definition runLaunchLoop ::
  "bool \<Rightarrow> string \<Rightarrow> AddCardRequest \<Rightarrow> bool \<Rightarrow> world \<Rightarrow> world \<times> CardOffer option" where
  "runLaunchLoop patient mode req load w =
     (let pg = serve w (loads w) load;
          result = (if patient
                    then launchLoopPatient (req_Quality req) (req_Language req) (req_Edition req) load pg
                    else launchLoop (req_Quality req) (req_Language req) (req_Edition req) load pg)
      in (w\<lparr>loads := Suc (loads w), attempts := attempts w @ [(mode, load, result \<noteq> None)]\<rparr>,
          result))"

text \<open>The page load that precedes the enrichment (a navigation without extra content; its
  error is logged and ignored).\<close>

definition loadDetails :: "world \<Rightarrow> world \<times> page" where
  "loadDetails w = (w\<lparr>loads := Suc (loads w)\<rparr>, serve w (loads w) False)"

text \<open>The table of \<^verbatim>\<open>scrapeWithRetries\<close>: delay in seconds, load depth, name.\<close>

definition retryAttempts :: "(nat \<times> bool \<times> string) list" where
  "retryAttempts =
     [(2, False, ''Tentative rapide''),
      (5, False, ''Tentative standard''),
      (8, True, ''Tentative avec chargement suppl'' @ [CHR 0xC3, CHR 0xA9] @ ''mentaire''),
      (12, True, ''Tentative finale (mode patient)'')]"

fun scrapeWithRetries_from ::
  "string \<Rightarrow> AddCardRequest \<Rightarrow> (nat \<times> bool \<times> string) list \<Rightarrow> world
   \<Rightarrow> world \<times> CardOffer option" where
  "scrapeWithRetries_from mode req [] w = (w, None)"
| "scrapeWithRetries_from mode req (attempt # rest) w =
     (case runLaunchLoop True mode req (fst (snd attempt)) w of
        (w', Some result) \<Rightarrow> (w', Some result)
      | (w', None) \<Rightarrow> scrapeWithRetries_from mode req rest w')"

text \<open>\<^verbatim>\<open>scrapeWithRetries\<close>; the browser context of the Go code stands for the configuration
  \<open>mode\<close> under which it was started.\<close>

definition scrapeWithRetries ::
  "string \<Rightarrow> AddCardRequest \<Rightarrow> world \<Rightarrow> world \<times> CardOffer option" where
  "scrapeWithRetries mode req w = scrapeWithRetries_from mode req retryAttempts w"

definition attemptScrapeWithMode ::
  "AddCardRequest \<Rightarrow> string \<Rightarrow> world \<Rightarrow> world \<times> (scrape_error + ScrapedCardInfo)" where
  "attemptScrapeWithMode req mode w =
     (if \<not> connect_ok w mode then (w, Inl (ModeConnectionFailed mode))
      else case scrapeWithRetries mode req w of
          (w1, None) \<Rightarrow> (w1, Inl (NoCardInMode mode))
        | (w1, Some result) \<Rightarrow>
            (case loadDetails w1 of
               (w2, pg) \<Rightarrow> (w2, fst (extractCardDetails pg result emptyInfo))))"

definition modes :: "string list" where
  "modes = [''secure'', ''permissive'', ''minimal'']"

fun scrapeWithMultipleModes_from ::
  "AddCardRequest \<Rightarrow> string list \<Rightarrow> world \<Rightarrow> world \<times> (scrape_error + ScrapedCardInfo)" where
  "scrapeWithMultipleModes_from req [] w = (w, Inl AllModesFailed)"
| "scrapeWithMultipleModes_from req (mode # rest) w =
     (case attemptScrapeWithMode req mode w of
        (w', Inr result) \<Rightarrow> (w', Inr result)
      | (w', Inl err) \<Rightarrow> scrapeWithMultipleModes_from req rest w')"

definition scrapeWithMultipleModes ::
  "AddCardRequest \<Rightarrow> world \<Rightarrow> world \<times> (scrape_error + ScrapedCardInfo)" where
  "scrapeWithMultipleModes req w = scrapeWithMultipleModes_from req modes w"

definition scrapeWithStandardMode ::
  "AddCardRequest \<Rightarrow> world \<Rightarrow> world \<times> (scrape_error + ScrapedCardInfo)" where
  "scrapeWithStandardMode req w =
     (if \<not> connect_ok w ''standard'' then (w, Inl BrowserConnectionFailed)
      else case runLaunchLoop False ''standard'' req False w of
          (w1, result) \<Rightarrow>
            (case (if result = None then runLaunchLoop False ''standard'' req True w1
                   else (w1, result)) of
               (w2, None) \<Rightarrow>
                 (w2, Inl (NoMatchingCard (req_Quality req) (req_Language req) (req_Edition req)))
             | (w2, Some result) \<Rightarrow>
                 (case loadDetails w2 of
                    (w3, pg) \<Rightarrow> (w3, fst (extractCardDetails pg result emptyInfo)))))"

text \<open>\<^verbatim>\<open>scrapeCardInfo\<close> of the version with browser configurations: Windows tries the
  configurations in turn, the other systems use the standard mode.\<close>

definition scrapeCardInfo_goos ::
  "AddCardRequest \<Rightarrow> world \<Rightarrow> world \<times> (scrape_error + ScrapedCardInfo)" where
  "scrapeCardInfo_goos req w =
     (if goos w = ''windows'' then scrapeWithMultipleModes req w
      else scrapeWithStandardMode req w)"

text \<open>\<^verbatim>\<open>scrapeCardInfo\<close> of app.go: one browser, no connection test, a shallow attempt and
  then an expanded one.\<close>

definition scrapeCardInfo ::
  "AddCardRequest \<Rightarrow> world \<Rightarrow> world \<times> (scrape_error + ScrapedCardInfo)" where
  "scrapeCardInfo req w =
     (case runLaunchLoop False ''default'' req False w of
        (w1, result) \<Rightarrow>
          (case (if result = None then runLaunchLoop False ''default'' req True w1
                 else (w1, result)) of
             (w2, None) \<Rightarrow>
               (w2, Inl (NoMatchingCard (req_Quality req) (req_Language req) (req_Edition req)))
           | (w2, Some result) \<Rightarrow>
               (case loadDetails w2 of
                  (w3, pg) \<Rightarrow> (w3, fst (scrapeCardInfo_details pg result emptyInfo)))))"

text \<open>Vocabulary for the order of the attempts: the configured pairs (configuration, load
  depth) of each entry point, configurations outer and load depths inner, and the part of
  an attempt that names its pair.\<close>

definition schedule_goos :: "string \<Rightarrow> (string \<times> bool) list" where
  "schedule_goos os =
     (if os = ''windows''
      then concat (map (\<lambda>mode. map (\<lambda>attempt. (mode, fst (snd attempt))) retryAttempts) modes)
      else [(''standard'', False), (''standard'', True)])"

definition schedule_app :: "(string \<times> bool) list" where
  "schedule_app = [(''default'', False), (''default'', True)]"

definition pair_of :: "string \<times> bool \<times> bool \<Rightarrow> string \<times> bool" where
  "pair_of a = (fst a, fst (snd a))"

definition hit :: "string \<times> bool \<times> bool \<Rightarrow> bool" where
  "hit a = snd (snd a)"

text \<open>
  \<open>ordered_trace sched new found\<close>: the attempts \<open>new\<close> were made in the order of the
  schedule \<open>sched\<close>, starting at its first pair and skipping none; every attempt but the last
  found no card; \<open>found\<close> tells whether the last attempt found one; and without a find the
  whole schedule was tried.
\<close>

definition ordered_trace ::
  "(string \<times> bool) list \<Rightarrow> (string \<times> bool \<times> bool) list \<Rightarrow> bool \<Rightarrow> bool" where
  "ordered_trace sched new found =
     (prefix (map pair_of new) sched
      \<and> list_all (\<lambda>a. \<not> hit a) (butlast new)
      \<and> (found = (new \<noteq> [] \<and> hit (last new)))
      \<and> (found \<or> map pair_of new = sched))"

text \<open>\<open>expanded_after_shallow new\<close>: every attempt with the extra content loaded comes after
  an attempt under the same configuration without it, and that one found no card.\<close>

definition expanded_after_shallow :: "(string \<times> bool \<times> bool) list \<Rightarrow> bool" where
  "expanded_after_shallow new =
     (\<forall>i<length new. fst (snd (new ! i)) \<longrightarrow>
        (\<exists>j<i. new ! j = (fst (new ! i), False, False)))"

text \<open>
  What the specification says of the enriched result, for a page \<open>pg\<close> and the selected
  offer: the name is the sentinel when the first heading is absent or empty and the trimmed
  heading otherwise; set and rarity come from the page first, then from the offer, then
  from the sentinels.
\<close>

definition details_as_specified :: "page \<Rightarrow> CardOffer \<Rightarrow> ScrapedCardInfo \<Rightarrow> bool" where
  "details_as_specified pg offer info' =
     (info_Name info' =
        (if h1_text pg = None \<or> h1_text pg = Some [] then ''Carte inconnue''
         else TrimSpace (the (h1_text pg)))
      \<and> info_Set info' =
        (if infoField pg ''set_name'' \<noteq> [] then infoField pg ''set_name''
         else if SetName offer \<noteq> [] then SetName offer else ''Set inconnu'')
      \<and> info_Rarity info' =
        (if infoField pg ''rarity'' \<noteq> [] then infoField pg ''rarity''
         else if Rarity offer \<noteq> [] then Rarity offer else unknownRarity))"

text \<open>A world in which every browser configuration connects, no page was loaded and no
  attempt was made yet.\<close>

definition fresh_world :: "string \<Rightarrow> (nat \<Rightarrow> bool \<Rightarrow> page) \<Rightarrow> world" where
  "fresh_world os pages =
     \<lparr>goos = os, connect_ok = (\<lambda>mode. True), serve = pages, loads = 0, attempts = []\<rparr>"

text \<open>Pages for a listing whose matching row shows only once the extra content is loaded.\<close>

definition pages_expanded_only :: "nat \<Rightarrow> bool \<Rightarrow> page" where
  "pages_expanded_only n load = (if load then first_edition_page else table_page)"

text \<open>Pages for a listing that always shows the single first-edition row.\<close>

definition pages_first_edition :: "nat \<Rightarrow> bool \<Rightarrow> page" where
  "pages_first_edition n load = first_edition_page"

section \<open>The card store and AddCard\<close>

record Card =
  card_ID :: int
  card_Name :: string
  card_Set :: string
  card_Rarity :: string
  card_Price :: string
  card_PriceNum :: rat
  card_ImageURL :: string
  card_CardURL :: string
  card_Type :: string
  card_AddedAt :: string
  card_LastUpdated :: string
  card_Quality :: string
  card_Language :: string
  card_Edition :: bool
  card_TotalOffers :: nat

text \<open>
  The table \<^verbatim>\<open>cards\<close> by its SQL meaning: the rows in insertion order and the largest id
  handed out so far (\<^verbatim>\<open>AUTOINCREMENT\<close>).  The columns are never NULL in rows that \<^verbatim>\<open>AddCard\<close>
  writes.  Failures of the database driver itself are outside the model: a statement fails
  only where SQL says so (no row for a query, a \<^verbatim>\<open>UNIQUE\<close> violation for an insert).
\<close>

record database =
  db_rows :: "Card list"
  db_seq :: int

datatype add_error =
    AlreadyInList string
  | StoreError
  | CriteriaNotFound string string bool
  | ScrapeFailed scrape_error
  | SaveFailed

text \<open>\<^verbatim>\<open>getCardByURL\<close>: \<open>None\<close> is \<^verbatim>\<open>sql.ErrNoRows\<close>.\<close>

definition getCardByURL :: "database \<Rightarrow> string \<Rightarrow> Card option" where
  "getCardByURL db url = find (\<lambda>c. card_CardURL c = url) (db_rows db)"

text \<open>\<^verbatim>\<open>moveCard\<close>: \<^verbatim>\<open>UPDATE cards SET type = ?, last_updated = CURRENT_TIMESTAMP WHERE id = ?\<close>;
  the update violates no constraint, so the error returned is nil.\<close>

definition moveCard :: "string \<Rightarrow> int \<Rightarrow> string \<Rightarrow> database \<Rightarrow> database \<times> add_error option" where
  "moveCard now cardID newType db =
     (db\<lparr>db_rows :=
           map (\<lambda>c. if card_ID c = cardID
                     then c\<lparr>card_Type := newType, card_LastUpdated := now\<rparr> else c)
               (db_rows db)\<rparr>,
      None)"

text \<open>The \<^verbatim>\<open>INSERT\<close> of \<^verbatim>\<open>AddCard\<close>: refused when the URL is already in the table
  (\<^verbatim>\<open>card_url TEXT UNIQUE\<close>), otherwise the row gets the next id.\<close>

definition insertCard :: "Card \<Rightarrow> database \<Rightarrow> database \<times> int option" where
  "insertCard newCard db =
     (if card_CardURL newCard \<in> set (map card_CardURL (db_rows db)) then (db, None)
      else (let newId = max (db_seq db) (fold max (map card_ID (db_rows db)) 0) + 1
            in (db\<lparr>db_rows := db_rows db @ [newCard\<lparr>card_ID := newId\<rparr>], db_seq := newId\<rparr>,
                Some newId)))"

text \<open>\<^verbatim>\<open>AddCard\<close> of app.go.  \<open>now\<close> is the formatted current time.  The state is the world of
  the scraper and the database.\<close>

definition AddCard ::
  "string \<Rightarrow> AddCardRequest \<Rightarrow> world \<times> database \<Rightarrow> (world \<times> database) \<times> (add_error + Card)" where
  "AddCard now req st =
     (case st of (w, db) \<Rightarrow>
      (case getCardByURL db (req_URL req) of
         Some existingCard \<Rightarrow>
           (if card_Type existingCard = req_Type req
            then ((w, db), Inl (AlreadyInList (req_Type req)))
            else (case moveCard now (card_ID existingCard) (req_Type req) db of
                    (db', Some err) \<Rightarrow> ((w, db'), Inl err)
                  | (db', None) \<Rightarrow>
                      ((w, db'), Inr (existingCard\<lparr>card_Type := req_Type req\<rparr>))))
       | None \<Rightarrow>
           (case scrapeCardInfo req w of
              (w', Inl err) \<Rightarrow>
                (case err of
                   NoMatchingCard q l e \<Rightarrow>
                     ((w', db),
                      Inl (CriteriaNotFound (req_Quality req) (req_Language req) (req_Edition req)))
                 | _ \<Rightarrow> ((w', db), Inl (ScrapeFailed err)))
            | (w', Inr cardInfo) \<Rightarrow>
                (let newCard =
                   \<lparr>card_ID = 0, card_Name = info_Name cardInfo, card_Set = info_Set cardInfo,
                    card_Rarity = info_Rarity cardInfo, card_Price = info_Price cardInfo,
                    card_PriceNum = info_PriceNum cardInfo,
                    card_ImageURL = info_ImageURL cardInfo, card_CardURL = req_URL req,
                    card_Type = req_Type req, card_AddedAt = now, card_LastUpdated = now,
                    card_Quality = req_Quality req, card_Language = req_Language req,
                    card_Edition = req_Edition req,
                    card_TotalOffers = length (info_Offers cardInfo)\<rparr>
                 in case insertCard newCard db of
                      (db', None) \<Rightarrow> ((w', db'), Inl SaveFailed)
                    | (db', Some newId) \<Rightarrow> ((w', db'), Inr (newCard\<lparr>card_ID := newId\<rparr>))))))"

text \<open>The constraints of the schema: \<^verbatim>\<open>id INTEGER PRIMARY KEY\<close> and \<^verbatim>\<open>card_url TEXT UNIQUE\<close>.\<close>

definition schema_ok :: "database \<Rightarrow> bool" where
  "schema_ok db =
     (distinct (map card_ID (db_rows db)) \<and> distinct (map card_CardURL (db_rows db)))"

text \<open>A store with one saved card, in the collection, for the URL of the fixture requests.\<close>

definition stored_card :: Card where
  "stored_card =
     \<lparr>card_ID = 1, card_Name = ''Dark Magician'', card_Set = ''LOB'', card_Rarity = ''Rare'',
      card_Price = ''2.00'' @ euro, card_PriceNum = 2, card_ImageURL = [],
      card_CardURL = ''https://www.cardmarket.com/card'', card_Type = ''collection'',
      card_AddedAt = ''2024-01-01 10:00:00'', card_LastUpdated = ''2024-01-01 10:00:00'',
      card_Quality = ''NM'', card_Language = ''English'', card_Edition = False,
      card_TotalOffers = 1\<rparr>"

definition store_one :: database where
  "store_one = \<lparr>db_rows = [stored_card], db_seq = 1\<rparr>"

section \<open>Properties of the price normalizer\<close>

subsection \<open>The match\<close>

lemma isSep_not_digit: "isSep c \<Longrightarrow> \<not> isDigit c"
  by (auto simp: isSep_def isDigit_def)

lemma length_three: "length g = 3 \<Longrightarrow> \<exists>x y z. g = [x, y, z]"
  by (cases g; simp; cases "tl g"; simp; cases "tl (tl g)"; auto)

lemma digits3_head:
  assumes "digits a" "length a \<le> 3" "r = [] \<or> \<not> isDigit (hd r)"
  shows "digits3 (a @ r) = a"
proof -
  have "takeWhile isDigit (take (3 - length a) r) = []"
    using assms(3) by (cases r; cases "3 - length a"; auto)
  with assms(1,2) show ?thesis
    by (simp add: digits3_def digits_def list_all_iff takeWhile_append2)
qed

lemma thousands_none:
  assumes "t = [] \<or> \<not> isSep (hd t)"
  shows "thousands t = ([], t)"
  using assms by (cases t rule: thousands.cases) auto

lemma thousands_short:
  assumes "digits d" "length d \<le> 2" "delimited post"
  shows "thousands (s # d @ post) = ([], s # d @ post)"
proof (cases "s # d @ post" rule: thousands.cases)
  case (1 s' a b c rest)
  have "\<not> (isDigit a \<and> isDigit b \<and> isDigit c)"
  proof (cases d)
    case Nil
    with 1 assms(3) show ?thesis by (auto simp: delimited_def)
  next
    case (Cons x xs)
    note dx = this
    show ?thesis
    proof (cases xs)
      case Nil
      with dx 1 assms(3) show ?thesis by (auto simp: delimited_def)
    next
      case (Cons y ys)
      with dx assms(2) have "ys = []" by simp
      with dx Cons 1 assms(3) show ?thesis by (auto simp: delimited_def)
    qed
  qed
  with 1 show ?thesis by auto
qed auto

lemma thousands_groups:
  assumes "\<forall>g\<in>set gs. digits g \<and> length g = 3" "thousands t = ([], t)"
  shows "thousands (concat (map (\<lambda>g. CHR ''.'' # g) gs) @ t) =
         (concat (map (\<lambda>g. CHR ''.'' # g) gs), t)"
  using assms
proof (induction gs)
  case Nil
  then show ?case by simp
next
  case (Cons g gs)
  then obtain x y z where g: "g = [x, y, z]" using length_three by force
  with Cons.prems have "isDigit x" "isDigit y" "isDigit z" by (auto simp: digits_def)
  with Cons g show ?case by (simp add: isSep_def)
qed

lemma decimals_tail:
  assumes "digits d" "1 \<le> length d" "length d \<le> 2" "delimited post" "isSep s"
  shows "decimals (s # d @ post) = s # d"
proof (cases d)
  case Nil
  with assms show ?thesis by simp
next
  case (Cons x xs)
  note dx = this
  show ?thesis
  proof (cases xs)
    case Nil
    with dx assms show ?thesis by (cases post) (auto simp: digits_def delimited_def)
  next
    case (Cons y ys)
    with dx assms have "ys = []" by simp
    with dx Cons assms show ?thesis by (auto simp: digits_def)
  qed
qed

lemma decimals_none: "delimited post \<Longrightarrow> decimals post = []"
  by (cases post rule: decimals.cases) (auto simp: delimited_def)

lemma Find_skip:
  assumes "\<forall>c\<in>set pre. \<not> isDigit c" "x \<noteq> []" "isDigit (hd x)"
  shows "FindStringSubmatch (pre @ x) = Some (matchAt x)"
proof -
  have "dropWhile (\<lambda>c. \<not> isDigit c) (pre @ x) = x"
    using assms by (cases x) (auto simp: dropWhile_append)
  with assms(2) show ?thesis by (cases x) (auto simp: FindStringSubmatch_def)
qed

lemma matchAt_single:
  assumes "isSep s" "digits a" "a \<noteq> []" "length a \<le> 3"
    "digits d" "1 \<le> length d" "length d \<le> 3" "delimited post"
  shows "matchAt (a @ s # d @ post) = a @ s # d"
proof -
  have d3: "digits3 (a @ s # d @ post) = a"
    using assms by (intro digits3_head) (auto dest: isSep_not_digit)
  have "(case thousands (s # d @ post) of (g, r) \<Rightarrow> g @ decimals r) = s # d"
  proof (cases "length d = 3")
    case True
    then obtain x y z where d: "d = [x, y, z]" using length_three by blast
    have "thousands post = ([], post)"
      using assms(8) by (intro thousands_none) (auto simp: delimited_def split: list.splits)
    moreover have "decimals post = []" using assms(8) by (rule decimals_none)
    ultimately show ?thesis using d assms(1,5) by (simp add: digits_def)
  next
    case False
    with assms have le: "length d \<le> 2" by simp
    then have "thousands (s # d @ post) = ([], s # d @ post)"
      using assms by (intro thousands_short)
    moreover have "decimals (s # d @ post) = s # d"
      using assms le by (intro decimals_tail)
    ultimately show ?thesis by simp
  qed
  then show ?thesis by (simp add: matchAt_def d3 split: prod.splits)
qed

lemma matchAt_euro:
  assumes "digits a" "a \<noteq> []" "length a \<le> 3"
    "\<forall>g\<in>set gs. digits g \<and> length g = 3"
    "digits d" "1 \<le> length d" "length d \<le> 2" "delimited post"
  shows "matchAt (a @ concat (map (\<lambda>g. CHR ''.'' # g) gs) @ CHR '','' # d @ post) =
         a @ concat (map (\<lambda>g. CHR ''.'' # g) gs) @ CHR '','' # d"
proof -
  let ?G = "concat (map (\<lambda>g. CHR ''.'' # g) gs)"
  let ?t = "CHR '','' # d @ post"
  have "?G @ ?t = [] \<or> \<not> isDigit (hd (?G @ ?t))"
    by (cases gs) (auto simp: isDigit_def)
  then have d3: "digits3 (a @ ?G @ ?t) = a"
    using assms(1,3) by (intro digits3_head)
  have "thousands ?t = ([], ?t)" using assms by (intro thousands_short)
  then have th: "thousands (?G @ ?t) = (?G, ?t)" using assms(4) by (intro thousands_groups)
  have "decimals ?t = CHR '','' # d" using assms by (intro decimals_tail) (simp_all add: isSep_def)
  then show ?thesis by (simp add: matchAt_def d3 th)
qed

lemma matchAt_us:
  assumes "digits a" "a \<noteq> []" "length a \<le> 3" "digits g" "length g = 3"
    "digits d" "1 \<le> length d" "length d \<le> 2" "delimited post"
  shows "matchAt (a @ CHR '','' # g @ CHR ''.'' # d @ post) = a @ CHR '','' # g @ CHR ''.'' # d"
proof -
  let ?t = "CHR ''.'' # d @ post"
  obtain x y z where g: "g = [x, y, z]" using assms(5) length_three by blast
  have d3: "digits3 (a @ CHR '','' # g @ ?t) = a"
    using assms(1,3) by (intro digits3_head) (simp_all add: isDigit_def)
  have "thousands ?t = ([], ?t)" using assms by (intro thousands_short)
  then have th: "thousands (CHR '','' # g @ ?t) = (CHR '','' # g, ?t)"
    using g assms(4) by (simp add: digits_def isSep_def)
  have "decimals ?t = CHR ''.'' # d" using assms by (intro decimals_tail) (simp_all add: isSep_def)
  then show ?thesis by (simp add: matchAt_def d3 th)
qed

subsection \<open>The value of a digit string\<close>

lemma foldl_digits:
  "foldl (\<lambda>n c. 10 * n + digitVal c) n ys = n * 10 ^ length ys + digitsValue ys"
proof (induction ys arbitrary: n)
  case Nil
  show ?case by (simp add: digitsValue_def)
next
  case (Cons y ys)
  have "foldl (\<lambda>n c. 10 * n + digitVal c) n (y # ys) =
        foldl (\<lambda>n c. 10 * n + digitVal c) (10 * n + digitVal y) ys" by simp
  also have "\<dots> = (10 * n + digitVal y) * 10 ^ length ys + digitsValue ys"
    by (rule Cons.IH)
  also have "digitsValue (y # ys) = digitVal y * 10 ^ length ys + digitsValue ys"
    using Cons.IH [of "digitVal y"] by (simp add: digitsValue_def)
  then have "(10 * n + digitVal y) * 10 ^ length ys + digitsValue ys =
             n * 10 ^ length (y # ys) + digitsValue (y # ys)"
    by (simp add: algebra_simps)
  finally show ?case .
qed

lemma digitsValue_append:
  "digitsValue (xs @ ys) = digitsValue xs * 10 ^ length ys + digitsValue ys"
  using foldl_digits [of "digitsValue xs" ys] by (simp add: digitsValue_def)

lemma digitVal_le: "isDigit c \<Longrightarrow> digitVal c \<le> 9"
  by (auto simp: isDigit_def digitVal_def)

lemma digitsValue_bound: "digits a \<Longrightarrow> digitsValue a < 10 ^ length a"
proof (induction a rule: rev_induct)
  case Nil
  show ?case by (simp add: digitsValue_def)
next
  case (snoc x a)
  then have "digitsValue a < 10 ^ length a" "digitVal x \<le> 9"
    by (simp_all add: digits_def digitVal_le)
  moreover have "digitsValue (a @ [x]) = digitsValue a * 10 + digitVal x"
    by (simp add: digitsValue_append) (simp add: digitsValue_def)
  ultimately show ?case by simp
qed

lemma float64Limit_big: "10 ^ 300 < float64Limit"
  unfolding float64Limit_def by simp

lemma inRange_Some: "v < float64Limit \<Longrightarrow> inRange v = Some v"
  by (simp add: inRange_def)

lemma decimalValue_small:
  assumes "digits a" "length a \<le> 3" "digits d"
  shows "decimalValue a d < float64Limit"
proof -
  have "digitsValue a < 10 ^ length a" using assms(1) by (rule digitsValue_bound)
  also have "(10::nat) ^ length a \<le> 10 ^ 3" using assms(2) by (intro power_increasing) simp_all
  finally have "digitsValue a < 1000" by simp
  then have "(of_nat (digitsValue a) :: rat) < of_nat 1000" by (simp only: of_nat_less_iff)
  then have 1: "(of_nat (digitsValue a) :: rat) < 1000" by simp
  have "digitsValue d < 10 ^ length d" using assms(3) by (rule digitsValue_bound)
  then have "(of_nat (digitsValue d) :: rat) < of_nat (10 ^ length d)"
    by (simp only: of_nat_less_iff)
  then have "(of_nat (digitsValue d) :: rat) < 10 ^ length d" by simp
  then have 2: "(of_nat (digitsValue d) :: rat) / 10 ^ length d < 1"
    by (simp add: divide_less_eq)
  have "decimalValue a d < 1000 + 1"
    unfolding decimalValue_def using 1 2 by (rule add_strict_mono)
  also have "(1000 + 1 :: rat) < 10 ^ 300" by simp
  also note float64Limit_big
  finally show ?thesis .
qed

subsection \<open>Parsing and the choice of the separator\<close>

lemma digits_no_sep: "digits a \<Longrightarrow> CHR ''.'' \<notin> set a \<and> CHR '','' \<notin> set a"
proof -
  assume "digits a"
  then have "\<forall>c\<in>set a. isDigit c" by (simp add: digits_def list_all_iff)
  moreover have "\<not> isDigit CHR ''.''" "\<not> isDigit CHR '',''" by (simp_all add: isDigit_def)
  ultimately show ?thesis by blast
qed

lemma digits_concat: "\<forall>g\<in>set gs. digits g \<Longrightarrow> digits (concat gs)"
  by (induction gs) (auto simp: digits_def)

lemma digits_append: "digits (a @ b) = (digits a \<and> digits b)"
  by (simp add: digits_def)

lemma hd_digit: "digits a \<Longrightarrow> a \<noteq> [] \<Longrightarrow> isDigit (hd (a @ r))"
  by (cases a) (auto simp: digits_def)

lemma ParseFloat_int:
  assumes "digits ip" "ip \<noteq> []"
  shows "ParseFloat ip = inRange (of_nat (digitsValue ip))"
proof -
  from assms(1) have all: "\<forall>x\<in>set ip. isDigit x" by (simp add: digits_def list_all_iff)
  have tw: "takeWhile isDigit ip = ip"
    by (rule takeWhile_eq_all_conv [THEN iffD2]) (use all in blast)
  have dw: "dropWhile isDigit ip = []"
    by (rule dropWhile_eq_Nil_conv [THEN iffD2]) (use all in blast)
  show ?thesis unfolding ParseFloat_def tw dw using assms(2) by simp
qed

lemma ParseFloat_point:
  assumes "digits ip" "digits fp" "ip \<noteq> []"
  shows "ParseFloat (ip @ CHR ''.'' # fp) =
         inRange (of_nat (digitsValue ip) + of_nat (digitsValue fp) / 10 ^ length fp)"
proof -
  have nd: "\<not> isDigit CHR ''.''" by (simp add: isDigit_def)
  have tw: "takeWhile isDigit (ip @ CHR ''.'' # fp) = ip"
    using assms(1) nd by (simp add: digits_def list_all_iff takeWhile_append2)
  have dw: "dropWhile isDigit (ip @ CHR ''.'' # fp) = CHR ''.'' # fp"
    using assms(1) nd by (simp add: digits_def list_all_iff dropWhile_append2)
  show ?thesis using assms by (simp add: ParseFloat_def tw dw digits_def)
qed

lemma RemoveAll_digits: "digits a \<Longrightarrow> RemoveAll a (CHR ''.'') = a"
  by (induction a) (auto simp: RemoveAll_def digits_def isDigit_def)

lemma RemoveAll_append: "RemoveAll (xs @ ys) c = RemoveAll xs c @ RemoveAll ys c"
  by (simp add: RemoveAll_def)

lemma RemoveAll_Cons:
  "RemoveAll (x # xs) c = (if x = c then RemoveAll xs c else x # RemoveAll xs c)"
  by (simp add: RemoveAll_def)

lemma RemoveAll_groups:
  "\<forall>g\<in>set gs. digits g \<Longrightarrow>
   RemoveAll (concat (map (\<lambda>g. CHR ''.'' # g) gs)) (CHR ''.'') = concat gs"
proof (induction gs)
  case Nil
  show ?case by (simp add: RemoveAll_def)
next
  case (Cons g gs)
  then have "RemoveAll g (CHR ''.'') = g" by (simp add: RemoveAll_digits)
  with Cons show ?case by (simp add: RemoveAll_def)
qed

lemma ReplaceFirst_digits:
  "digits a \<Longrightarrow> ReplaceFirst (a @ CHR '','' # d) (CHR '','') (CHR ''.'') = a @ CHR ''.'' # d"
  by (induction a) (auto simp: digits_def isDigit_def)

lemma Split_point:
  "digits a \<Longrightarrow> digits d \<Longrightarrow> Split (a @ CHR ''.'' # d) (CHR ''.'') = [a, d]"
proof (induction a)
  case Nil
  then have "Split d (CHR ''.'') = [d]"
    by (induction d) (auto simp: digits_def isDigit_def)
  then show ?case by simp
next
  case (Cons x a)
  then show ?case by (auto simp: digits_def isDigit_def)
qed

lemma Count_point:
  "digits a \<Longrightarrow> digits d \<Longrightarrow> Count (a @ CHR ''.'' # d) (CHR ''.'') = 1"
proof -
  assume "digits a" "digits d"
  then have "filter (\<lambda>x. x = CHR ''.'') a = []" "filter (\<lambda>x. x = CHR ''.'') d = []"
    using digits_no_sep [of a] digits_no_sep [of d] by (auto simp: filter_empty_conv)
  then show ?thesis by (simp add: Count_def)
qed

lemma normalize_euro:
  assumes "digits a" "gs \<noteq> []" "\<forall>g\<in>set gs. digits g \<and> length g = 3" "digits d"
  shows "normalizeSeparators text (a @ concat (map (\<lambda>g. CHR ''.'' # g) gs) @ CHR '','' # d) =
         (a @ concat gs) @ CHR ''.'' # d"
proof -
  let ?m = "a @ concat (map (\<lambda>g. CHR ''.'' # g) gs) @ CHR '','' # d"
  have c: "Contains ?m (CHR ''.'')" "Contains ?m (CHR '','')"
    using assms(2) by (cases gs; simp add: Contains_def)+
  have "RemoveAll ?m (CHR ''.'') = (a @ concat gs) @ CHR '','' # d"
    using assms by (simp add: RemoveAll_append RemoveAll_Cons RemoveAll_digits RemoveAll_groups)
  moreover have "digits (a @ concat gs)" using assms by (simp add: digits_append digits_concat)
  ultimately show ?thesis
    using c by (simp only: normalizeSeparators_def ReplaceFirst_digits if_True simp_thms)
qed

lemma normalize_us:
  assumes "digits a" "digits g" "digits d"
  shows "normalizeSeparators text (a @ CHR '','' # g @ CHR ''.'' # d) = a @ CHR ''.'' # g @ d"
proof -
  let ?m = "a @ CHR '','' # g @ CHR ''.'' # d"
  have c: "Contains ?m (CHR ''.'')" "Contains ?m (CHR '','')" by (simp_all add: Contains_def)
  have "RemoveAll ?m (CHR ''.'') = a @ CHR '','' # (g @ d)"
    using assms by (simp add: RemoveAll_append RemoveAll_Cons RemoveAll_digits)
  then show ?thesis
    using c assms(1) by (simp only: normalizeSeparators_def ReplaceFirst_digits if_True simp_thms)
qed

lemma normalize_comma:
  assumes "digits a" "digits d"
  shows "normalizeSeparators text (a @ CHR '','' # d) = a @ CHR ''.'' # d"
proof -
  have ns: "CHR ''.'' \<notin> set (a @ CHR '','' # d)"
    using digits_no_sep [OF assms(1)] digits_no_sep [OF assms(2)] by simp
  then have "filter (\<lambda>x. x = CHR ''.'') (a @ CHR '','' # d) = []"
    unfolding filter_empty_conv by blast
  with ns have "\<not> Contains (a @ CHR '','' # d) (CHR ''.'')"
    "Count (a @ CHR '','' # d) (CHR ''.'') = 0"
    unfolding Contains_def Count_def by simp_all
  moreover have "Contains (a @ CHR '','' # d) (CHR '','')" by (simp add: Contains_def)
  ultimately show ?thesis
    using assms(1) by (simp add: normalizeSeparators_def ReplaceFirst_digits)
qed

lemma normalize_point:
  assumes "digits a" "digits d"
  shows "normalizeSeparators text (a @ CHR ''.'' # d) =
         (if length d = 3 \<and> CHR '','' \<notin> set text then a @ d else a @ CHR ''.'' # d)"
proof -
  have "CHR '','' \<notin> set (a @ CHR ''.'' # d)"
    using digits_no_sep [OF assms(1)] digits_no_sep [OF assms(2)] by simp
  then have "\<not> Contains (a @ CHR ''.'' # d) (CHR '','')"
    by (simp add: Contains_def del: set_append)
  moreover have "RemoveAll (a @ CHR ''.'' # d) (CHR ''.'') = a @ d"
    using assms by (simp add: RemoveAll_append RemoveAll_Cons RemoveAll_digits)
  ultimately show ?thesis
    using assms by (simp add: normalizeSeparators_def Count_point Split_point Contains_def)
qed

subsection \<open>The value returned for each shape of number\<close>

lemma extract_via_match:
  assumes "\<forall>c\<in>set pre. \<not> isDigit c" "digits a" "a \<noteq> []"
    "matchAt (a @ r) = m" "ParseFloat (normalizeSeparators (pre @ a @ r) m) = Some v"
  shows "extractNumericPrice (pre @ a @ r) = v"
proof -
  have "isDigit (hd (a @ r))" using assms(2,3) by (rule hd_digit)
  moreover have "a @ r \<noteq> []" using assms(3) by simp
  ultimately have "FindStringSubmatch (pre @ a @ r) = Some (matchAt (a @ r))"
    using assms(1) by (intro Find_skip)
  with assms(4,5) show ?thesis by (simp add: extractNumericPrice_def)
qed

lemma extract_euro:
  assumes "\<forall>c\<in>set pre. \<not> isDigit c" "digits a" "a \<noteq> []" "length a \<le> 3"
    "gs \<noteq> []" "\<forall>g\<in>set gs. digits g \<and> length g = 3"
    "digits d" "1 \<le> length d" "length d \<le> 2" "delimited post"
    "decimalValue (a @ concat gs) d < float64Limit"
  shows "extractNumericPrice
           (pre @ a @ concat (map (\<lambda>g. CHR ''.'' # g) gs) @ CHR '','' # d @ post) =
         decimalValue (a @ concat gs) d"
proof (rule extract_via_match)
  show "matchAt (a @ concat (map (\<lambda>g. CHR ''.'' # g) gs) @ CHR '','' # d @ post) =
        a @ concat (map (\<lambda>g. CHR ''.'' # g) gs) @ CHR '','' # d"
    using assms by (intro matchAt_euro)
  have "digits (a @ concat gs)" "a @ concat gs \<noteq> []"
    using assms by (simp_all add: digits_append digits_concat)
  then have "ParseFloat ((a @ concat gs) @ CHR ''.'' # d) =
             inRange (decimalValue (a @ concat gs) d)"
    unfolding decimalValue_def using assms(7) by (intro ParseFloat_point)
  then show "ParseFloat (normalizeSeparators
       (pre @ a @ concat (map (\<lambda>g. CHR ''.'' # g) gs) @ CHR '','' # d @ post)
       (a @ concat (map (\<lambda>g. CHR ''.'' # g) gs) @ CHR '','' # d)) =
     Some (decimalValue (a @ concat gs) d)"
    using assms(11) by (simp only: normalize_euro [OF assms(2,5,6,7)] inRange_Some)
qed (use assms in simp_all)

lemma extract_us:
  assumes "\<forall>c\<in>set pre. \<not> isDigit c" "digits a" "a \<noteq> []" "length a \<le> 3"
    "digits g" "length g = 3" "digits d" "1 \<le> length d" "length d \<le> 2" "delimited post"
  shows "extractNumericPrice (pre @ a @ CHR '','' # g @ CHR ''.'' # d @ post) =
         decimalValue a (g @ d)"
proof (rule extract_via_match)
  show "matchAt (a @ CHR '','' # g @ CHR ''.'' # d @ post) = a @ CHR '','' # g @ CHR ''.'' # d"
    using assms by (intro matchAt_us)
  have "ParseFloat (a @ CHR ''.'' # g @ d) = inRange (decimalValue a (g @ d))"
    unfolding decimalValue_def using assms by (intro ParseFloat_point) (simp_all add: digits_append)
  moreover have "decimalValue a (g @ d) < float64Limit"
    using assms by (intro decimalValue_small) (simp_all add: digits_append)
  ultimately show "ParseFloat (normalizeSeparators (pre @ a @ CHR '','' # g @ CHR ''.'' # d @ post)
       (a @ CHR '','' # g @ CHR ''.'' # d)) = Some (decimalValue a (g @ d))"
    by (simp only: normalize_us [OF assms(2,5,7)] inRange_Some)
qed (use assms in simp_all)

lemma extract_comma:
  assumes "\<forall>c\<in>set pre. \<not> isDigit c" "digits a" "a \<noteq> []" "length a \<le> 3"
    "digits d" "1 \<le> length d" "length d \<le> 3" "delimited post"
  shows "extractNumericPrice (pre @ a @ CHR '','' # d @ post) = decimalValue a d"
proof (rule extract_via_match)
  show "matchAt (a @ CHR '','' # d @ post) = a @ CHR '','' # d"
    using assms by (intro matchAt_single) (simp_all add: isSep_def)
  have "ParseFloat (a @ CHR ''.'' # d) = inRange (decimalValue a d)"
    unfolding decimalValue_def using assms by (intro ParseFloat_point)
  moreover have "decimalValue a d < float64Limit" using assms by (intro decimalValue_small)
  ultimately show "ParseFloat (normalizeSeparators (pre @ a @ CHR '','' # d @ post)
       (a @ CHR '','' # d)) = Some (decimalValue a d)"
    by (simp only: normalize_comma [OF assms(2,5)] inRange_Some)
qed (use assms in simp_all)

lemma extract_point:
  assumes "\<forall>c\<in>set pre. \<not> isDigit c" "digits a" "a \<noteq> []" "length a \<le> 3"
    "digits d" "1 \<le> length d" "length d \<le> 3" "delimited post"
  shows "extractNumericPrice (pre @ a @ CHR ''.'' # d @ post) =
         (if length d = 3 \<and> CHR '','' \<notin> set (pre @ post)
          then of_nat (digitsValue (a @ d)) else decimalValue a d)"
proof -
  let ?text = "pre @ a @ CHR ''.'' # d @ post"
  have nc: "CHR '','' \<notin> set ?text \<longleftrightarrow> CHR '','' \<notin> set (pre @ post)"
    using digits_no_sep [OF assms(2)] digits_no_sep [OF assms(5)] by auto
  have m: "matchAt (a @ CHR ''.'' # d @ post) = a @ CHR ''.'' # d"
    using assms by (intro matchAt_single) (simp_all add: isSep_def)
  show ?thesis
  proof (cases "length d = 3 \<and> CHR '','' \<notin> set (pre @ post)")
    case True
    have "digitsValue (a @ d) < 10 ^ length (a @ d)"
      using assms by (intro digitsValue_bound) (simp add: digits_append)
    also have "(10::nat) ^ length (a @ d) \<le> 10 ^ 6"
      using assms True by (intro power_increasing) simp_all
    finally have "(of_nat (digitsValue (a @ d)) :: rat) < of_nat (10 ^ 6)"
      by (simp only: of_nat_less_iff)
    also have "(of_nat (10 ^ 6) :: rat) < 10 ^ 300" by simp
    also note float64Limit_big
    finally have r: "inRange (of_nat (digitsValue (a @ d))) = Some (of_nat (digitsValue (a @ d)))"
      by (rule inRange_Some)
    have n: "normalizeSeparators ?text (a @ CHR ''.'' # d) = a @ d"
      using True nc by (simp add: normalize_point [OF assms(2,5)])
    have "ParseFloat (a @ d) = inRange (of_nat (digitsValue (a @ d)))"
      using assms by (intro ParseFloat_int) (simp_all add: digits_append)
    with r n have "ParseFloat (normalizeSeparators ?text (a @ CHR ''.'' # d)) =
        Some (of_nat (digitsValue (a @ d)))" by simp
    with m assms have "extractNumericPrice ?text = of_nat (digitsValue (a @ d))"
      by (intro extract_via_match)
    then show ?thesis by (simp only: if_P [OF True])
  next
    case False
    have n: "normalizeSeparators ?text (a @ CHR ''.'' # d) = a @ CHR ''.'' # d"
      using False nc by (auto simp add: normalize_point [OF assms(2,5)])
    have "ParseFloat (a @ CHR ''.'' # d) = inRange (decimalValue a d)"
      unfolding decimalValue_def using assms by (intro ParseFloat_point)
    moreover have "decimalValue a d < float64Limit" using assms by (intro decimalValue_small)
    ultimately have "ParseFloat (normalizeSeparators ?text (a @ CHR ''.'' # d)) =
        Some (decimalValue a d)" using n by (simp add: inRange_Some)
    with m assms have "extractNumericPrice ?text = decimalValue a d"
      by (intro extract_via_match)
    then show ?thesis by (simp only: if_not_P [OF False])
  qed
qed

lemma no_digit_no_match: "\<forall>c\<in>set s. \<not> isDigit c \<Longrightarrow> FindStringSubmatch s = None"
proof -
  assume "\<forall>c\<in>set s. \<not> isDigit c"
  then have dw: "dropWhile (\<lambda>c. \<not> isDigit c) s = []"
    by (intro dropWhile_eq_Nil_conv [THEN iffD2]) blast
  show ?thesis unfolding FindStringSubmatch_def dw by simp
qed

lemma extract_no_digit: "\<forall>c\<in>set s. \<not> isDigit c \<Longrightarrow> extractNumericPrice s = 0"
  by (simp add: extractNumericPrice_def no_digit_no_match)

section \<open>Claim C1: the separator rule of the price normalizer\<close>

text \<open>Three of the four prices of the claim.\<close>

lemma price_three_fifty: "extractNumericPrice (''3,50 '' @ euro) = 7 / 2"
  using extract_comma [of "[]" "''3''" "''50''" "'' '' @ euro"]
  by (simp add: digits_def isDigit_def delimited_def isSep_def euro_def decimalValue_def
      digitsValue_def digitVal_def)

lemma price_fifteen_thousand_cents: "extractNumericPrice (''15.000,00'' @ euro) = 15000"
proof -
  have "extractNumericPrice
          ([] @ ''15'' @ concat (map (\<lambda>g. CHR ''.'' # g) [''000'']) @ CHR '','' # ''00'' @ euro)
        = decimalValue (''15'' @ concat [''000'']) ''00''"
    by (rule extract_euro)
      (simp_all add: digits_def isDigit_def delimited_def isSep_def euro_def decimalValue_def
        digitsValue_def digitVal_def float64Limit_def)
  then show ?thesis by (simp add: decimalValue_def digitsValue_def digitVal_def)
qed

lemma price_fifteen_thousand: "extractNumericPrice (''15.000'' @ euro) = 15000"
  using extract_point [of "[]" "''15''" "''000''" "euro"]
  by (simp add: digits_def isDigit_def delimited_def isSep_def decimalValue_def
      digitsValue_def digitVal_def euro_def)

text \<open>The fourth: the pattern starts with at most three digits, so the match on
  "1234.56" followed by the euro sign is "123" and the price returned is 123.\<close>

lemma price_four_digits: "extractNumericPrice (''1234.56'' @ euro) = 123"
proof -
  have "FindStringSubmatch (''1234.56'' @ euro) = Some ''123''" by code_simp
  moreover have "normalizeSeparators (''1234.56'' @ euro) ''123'' = ''123''" by code_simp
  moreover have "ParseFloat ''123'' = Some 123"
    using ParseFloat_int [of "''123''"]
    by (simp add: digits_def isDigit_def digitsValue_def digitVal_def inRange_def float64Limit_def)
  ultimately show ?thesis by (simp add: extractNumericPrice_def)
qed

text \<open>A number with a comma for the thousands and a point for the decimals: the point is
  the rightmost separator, yet it is the one that is stripped.\<close>

lemma price_comma_then_point: "extractNumericPrice ''1,234.56'' = 123456 / 100000"
  using extract_us [of "[]" "''1''" "''234''" "''56''" "[]"]
  by (simp add: digits_def isDigit_def delimited_def isSep_def euro_def decimalValue_def
      digitsValue_def digitVal_def)

text \<open>
  C1, as stated, fails: with both separators present the rightmost one is not always the
  decimal separator ("1,234.56" gives 1.23456, not 1234.56), and "1234.56" followed by the
  euro sign gives 123, not 1234.56.
\<close>

theorem C1_counterexample:
  "extractNumericPrice ''1,234.56'' \<noteq> 123456 / 100
   \<and> extractNumericPrice (''1234.56'' @ euro) \<noteq> 123456 / 100"
  unfolding price_comma_then_point price_four_digits by simp

text \<open>
  C1, amended.  Let the text be a prefix without digits, then a number that starts with one
  to three digits \<open>a\<close>, then a rest \<open>post\<close> that is empty or starts with a byte that is
  neither a digit nor a separator.
  \<^item> Point groups then a comma (European form): every point is stripped and the comma is the
    decimal separator.
  \<^item> A comma group then a point: the point is stripped all the same and the comma is the
    decimal separator (the rightmost separator is not the decimal one).
  \<^item> A lone comma is the decimal separator.
  \<^item> A lone point is the decimal separator, unless exactly three digits follow it and the
    whole text has no comma; then it is stripped as a thousands separator.
  \<^item> The prices returned for "3,50 [euro]", "15.000,00[euro]" and "15.000[euro]" are 3.50,
    15000 and 15000.
\<close>

theorem C1_separator_rule:
  assumes "\<forall>c\<in>set pre. \<not> isDigit c" "digits a" "a \<noteq> []" "length a \<le> 3"
    "digits d" "1 \<le> length d" "delimited post"
  shows
    "(gs \<noteq> [] \<and> (\<forall>g\<in>set gs. digits g \<and> length g = 3) \<and> length d \<le> 2
        \<and> decimalValue (a @ concat gs) d < float64Limit \<longrightarrow>
      extractNumericPrice
          (pre @ a @ concat (map (\<lambda>g. CHR ''.'' # g) gs) @ CHR '','' # d @ post) =
        decimalValue (a @ concat gs) d)
     \<and> (digits g \<and> length g = 3 \<and> length d \<le> 2 \<longrightarrow>
        extractNumericPrice (pre @ a @ CHR '','' # g @ CHR ''.'' # d @ post) =
          decimalValue a (g @ d))
     \<and> (length d \<le> 3 \<longrightarrow>
        extractNumericPrice (pre @ a @ CHR '','' # d @ post) = decimalValue a d)
     \<and> (length d \<le> 3 \<longrightarrow>
        extractNumericPrice (pre @ a @ CHR ''.'' # d @ post) =
          (if length d = 3 \<and> CHR '','' \<notin> set (pre @ post)
           then of_nat (digitsValue (a @ d)) else decimalValue a d))
     \<and> extractNumericPrice (''3,50 '' @ euro) = 7 / 2
     \<and> extractNumericPrice (''15.000,00'' @ euro) = 15000
     \<and> extractNumericPrice (''15.000'' @ euro) = 15000"
proof (intro conjI impI)
  assume "gs \<noteq> [] \<and> (\<forall>g\<in>set gs. digits g \<and> length g = 3) \<and> length d \<le> 2
        \<and> decimalValue (a @ concat gs) d < float64Limit"
  with assms show "extractNumericPrice
          (pre @ a @ concat (map (\<lambda>g. CHR ''.'' # g) gs) @ CHR '','' # d @ post) =
        decimalValue (a @ concat gs) d"
    by (intro extract_euro) simp_all
next
  assume "digits g \<and> length g = 3 \<and> length d \<le> 2"
  with assms show "extractNumericPrice (pre @ a @ CHR '','' # g @ CHR ''.'' # d @ post) =
          decimalValue a (g @ d)"
    by (intro extract_us) simp_all
next
  assume "length d \<le> 3"
  with assms show "extractNumericPrice (pre @ a @ CHR '','' # d @ post) = decimalValue a d"
    by (intro extract_comma)
next
  assume "length d \<le> 3"
  with assms show "extractNumericPrice (pre @ a @ CHR ''.'' # d @ post) =
          (if length d = 3 \<and> CHR '','' \<notin> set (pre @ post)
           then of_nat (digitsValue (a @ d)) else decimalValue a d)"
    by (intro extract_point)
qed (fact price_three_fifty price_fifteen_thousand_cents price_fifteen_thousand)+

theorem C1_separator_rule_witness:
  "\<not> list_ex isDigit ''EUR '' \<and> digits ''12'' \<and> ''12'' \<noteq> [] \<and> length ''12'' \<le> 3
   \<and> digits ''50'' \<and> 1 \<le> length ''50'' \<and> delimited euro
   \<and> extractNumericPrice (''EUR 12.345.678,50'' @ euro) = 1234567850 / 100
   \<and> extractNumericPrice (''EUR 12,345.50'' @ euro) = 1234550 / 100000
   \<and> extractNumericPrice (''EUR 12,50'' @ euro) = 1250 / 100
   \<and> extractNumericPrice (''EUR 12.50'' @ euro) = 1250 / 100
   \<and> extractNumericPrice (''EUR 12.500'' @ euro) = 12500"
proof -
  have h: "\<forall>c\<in>set ''EUR ''. \<not> isDigit c" "digits ''12''" "''12'' \<noteq> []" "length ''12'' \<le> 3"
    "delimited euro"
    by (simp_all add: digits_def isDigit_def delimited_def isSep_def euro_def)
  have d1: "digits ''50''" "1 \<le> length ''50''" and d2: "digits ''500''" "1 \<le> length ''500''"
    by (simp_all add: digits_def isDigit_def)
  have g: "digits ''345''" "digits ''678''" by (simp_all add: digits_def isDigit_def)
  have v: "decimalValue (''12'' @ concat [''345'', ''678'']) ''50'' < float64Limit"
    by (simp add: decimalValue_def digitsValue_def digitVal_def float64Limit_def)
  note r1 = C1_separator_rule [OF h(1-4) d1 h(5), of "[''345'', ''678'']" "''345''"]
  note r2 = C1_separator_rule [OF h(1-4) d2 h(5), of "[]" "[]"]
  from r1 g v have "extractNumericPrice (''EUR 12.345.678,50'' @ euro) = 1234567850 / 100"
    by (simp add: decimalValue_def digitsValue_def digitVal_def)
  moreover from r1 g have "extractNumericPrice (''EUR 12,345.50'' @ euro) = 1234550 / 100000"
    by (simp add: decimalValue_def digitsValue_def digitVal_def)
  moreover from r1 have "extractNumericPrice (''EUR 12,50'' @ euro) = 1250 / 100"
    by (simp add: decimalValue_def digitsValue_def digitVal_def)
  moreover from r1 have "extractNumericPrice (''EUR 12.50'' @ euro) = 1250 / 100"
    by (simp add: decimalValue_def digitsValue_def digitVal_def)
  moreover from r2 have "extractNumericPrice (''EUR 12.500'' @ euro) = 12500"
    by (simp add: decimalValue_def digitsValue_def digitVal_def euro_def)
  ultimately show ?thesis using h d1 by (simp add: list_ex_iff)
qed

section \<open>Claims C2 and C9: the criteria matcher\<close>

lemma findBestOffer_eq: "findBestOffer offers quality langue edition = findTheCard offers quality langue edition"
  by (induction offers) simp_all

lemma findTheCard_Some:
  "findTheCard offers quality langue edition = Some r \<Longrightarrow>
     r \<in> set offers \<and> matches quality langue edition r"
  by (induction offers) (auto simp: matches_def split: if_splits)

lemma findTheCard_None:
  "findTheCard offers quality langue edition = None \<longleftrightarrow>
     (\<forall>r\<in>set offers. \<not> matches quality langue edition r)"
  by (induction offers) (auto simp: matches_def)

lemma findTheCard_Cons:
  "findTheCard (row # rest) quality langue edition =
     (if matches quality langue edition row then Some row
      else findTheCard rest quality langue edition)"
  by (simp add: matches_def)

lemma findTheCard_first:
  assumes "i < length offers" "matches quality langue edition (offers ! i)"
    "\<forall>j<i. \<not> matches quality langue edition (offers ! j)"
  shows "findTheCard offers quality langue edition = Some (offers ! i)"
  using assms
proof (induction offers arbitrary: i)
  case Nil
  then show ?case by simp
next
  case (Cons row rest)
  show ?case
  proof (cases i)
    case 0
    with Cons.prems show ?thesis by (simp add: findTheCard_Cons del: findTheCard.simps)
  next
    case (Suc k)
    with Cons.prems have "\<not> matches quality langue edition row" by auto
    moreover from Suc Cons.prems have "\<forall>j<k. \<not> matches quality langue edition (rest ! j)" by auto
    moreover from Suc Cons.prems have "k < length rest" "matches quality langue edition (rest ! k)"
      by simp_all
    ultimately show ?thesis
      using Suc Cons.IH [of k] by (simp add: findTheCard_Cons del: findTheCard.simps)
  qed
qed

text \<open>
  C2.  Whatever the list of offers and the criteria: an offer that the matcher returns is an
  element of the list whose quality, language and edition all equal the criteria; the
  matcher returns nil exactly when no offer of the list has the three attributes equal to
  the criteria; \<^verbatim>\<open>findBestOffer\<close> computes the same result as \<^verbatim>\<open>findTheCard\<close>; the result is a
  function of the list and the criteria (equal inputs give equal results); and on the two
  offers NM/English/plain at 2.00 and NM/English/first edition at 5.00, with criteria
  NM, English, not first edition, the offer at 2.00 is returned.
\<close>

theorem C2_exact_triple:
  "(\<forall>r. findTheCard offers quality langue edition = Some r \<longrightarrow>
        r \<in> set offers \<and> Mint r = quality \<and> Language r = langue \<and> Edition r = edition)
   \<and> (findTheCard offers quality langue edition = None \<longleftrightarrow>
        (\<forall>r\<in>set offers. \<not> (Mint r = quality \<and> Language r = langue \<and> Edition r = edition)))
   \<and> findBestOffer offers quality langue edition = findTheCard offers quality langue edition
   \<and> (offers' = offers \<and> quality' = quality \<and> langue' = langue \<and> edition' = edition \<longrightarrow>
        findTheCard offers' quality' langue' edition' = findTheCard offers quality langue edition)
   \<and> findTheCard [offer_nm_en_plain, offer_nm_en_first] ''NM'' ''English'' False =
        Some offer_nm_en_plain"
proof (intro conjI allI impI)
  fix r assume "findTheCard offers quality langue edition = Some r"
  then have "r \<in> set offers \<and> matches quality langue edition r" by (rule findTheCard_Some)
  then show "r \<in> set offers" "Mint r = quality" "Language r = langue" "Edition r = edition"
    by (simp_all add: matches_def)
next
  show "findTheCard offers quality langue edition = None \<longleftrightarrow>
        (\<forall>r\<in>set offers. \<not> (Mint r = quality \<and> Language r = langue \<and> Edition r = edition))"
    using findTheCard_None [of offers quality langue edition] by (simp add: matches_def)
next
  show "findBestOffer offers quality langue edition = findTheCard offers quality langue edition"
    by (rule findBestOffer_eq)
next
  assume "offers' = offers \<and> quality' = quality \<and> langue' = langue \<and> edition' = edition"
  then show "findTheCard offers' quality' langue' edition' =
             findTheCard offers quality langue edition" by simp
next
  show "findTheCard [offer_nm_en_plain, offer_nm_en_first] ''NM'' ''English'' False =
        Some offer_nm_en_plain"
    by (simp add: offer_nm_en_plain_def offer_nm_en_first_def)
qed

theorem C2_exact_triple_witness:
  "findTheCard [offer_nm_en_first, offer_nm_en_plain] ''NM'' ''English'' False
     = Some offer_nm_en_plain
   \<and> offer_nm_en_plain \<in> set [offer_nm_en_first, offer_nm_en_plain]
   \<and> Mint offer_nm_en_plain = ''NM'' \<and> Language offer_nm_en_plain = ''English''
   \<and> Edition offer_nm_en_plain = False
   \<and> findTheCard [offer_nm_en_first] ''NM'' ''English'' False = None
   \<and> findBestOffer [offer_nm_en_first, offer_nm_en_plain] ''NM'' ''English'' False
     = Some offer_nm_en_plain"
proof -
  note t = C2_exact_triple [of "[offer_nm_en_first, offer_nm_en_plain]" "''NM''" "''English''"
      False "[]" "[]" "[]" True]
  note u = C2_exact_triple [of "[offer_nm_en_first]" "''NM''" "''English''" False "[]" "[]" "[]" True]
  have s: "findTheCard [offer_nm_en_first, offer_nm_en_plain] ''NM'' ''English'' False
     = Some offer_nm_en_plain"
    by (simp add: offer_nm_en_plain_def offer_nm_en_first_def)
  have n: "\<forall>r\<in>set [offer_nm_en_first].
      \<not> (Mint r = ''NM'' \<and> Language r = ''English'' \<and> Edition r = False)"
    by (simp add: offer_nm_en_first_def)
  from t [THEN conjunct1, rule_format, OF s]
  have "offer_nm_en_plain \<in> set [offer_nm_en_first, offer_nm_en_plain]
     \<and> Mint offer_nm_en_plain = ''NM'' \<and> Language offer_nm_en_plain = ''English''
     \<and> Edition offer_nm_en_plain = False" .
  moreover from u [THEN conjunct2, THEN conjunct1, THEN iffD2, OF n]
  have "findTheCard [offer_nm_en_first] ''NM'' ''English'' False = None" .
  moreover from t [THEN conjunct2, THEN conjunct2, THEN conjunct1] s
  have "findBestOffer [offer_nm_en_first, offer_nm_en_plain] ''NM'' ''English'' False
     = Some offer_nm_en_plain" by (simp only:)
  ultimately show ?thesis using s by (simp only: simp_thms)
qed

text \<open>
  C9.  The offer returned is the one at the smallest index whose triple equals the
  criteria, whatever the offers after it and whatever the prices: if the offer at index \<open>i\<close>
  matches and no offer before it does, both matchers return the offer at index \<open>i\<close>.
\<close>

theorem C9_first_match_wins:
  assumes "i < length offers"
    and "Mint (offers ! i) = quality \<and> Language (offers ! i) = langue
         \<and> Edition (offers ! i) = edition"
    and "\<forall>j<i. \<not> (Mint (offers ! j) = quality \<and> Language (offers ! j) = langue
         \<and> Edition (offers ! j) = edition)"
  shows "findTheCard offers quality langue edition = Some (offers ! i)
         \<and> findBestOffer offers quality langue edition = Some (offers ! i)"
  using findTheCard_first [of i offers quality langue edition] assms
  by (simp add: matches_def findBestOffer_eq)

text \<open>Three offers: a first edition, then two that match; the first match costs 2.00, the
  second 1.00.  The one at 2.00, at index 1, is returned.\<close>

theorem C9_first_match_wins_witness:
  "(1::nat) < length [offer_nm_en_first, offer_nm_en_plain, offer_nm_en_cheap]
   \<and> findTheCard [offer_nm_en_first, offer_nm_en_plain, offer_nm_en_cheap] ''NM'' ''English'' False
       = Some offer_nm_en_plain
   \<and> findBestOffer [offer_nm_en_first, offer_nm_en_plain, offer_nm_en_cheap] ''NM'' ''English'' False
       = Some offer_nm_en_plain
   \<and> PriceNum offer_nm_en_cheap < PriceNum offer_nm_en_plain"
proof -
  let ?offers = "[offer_nm_en_first, offer_nm_en_plain, offer_nm_en_cheap]"
  have 1: "(1::nat) < length ?offers" by simp
  have 2: "Mint (?offers ! 1) = ''NM'' \<and> Language (?offers ! 1) = ''English''
         \<and> Edition (?offers ! 1) = False"
    by (simp add: offer_nm_en_plain_def)
  have 3: "\<forall>j<1. \<not> (Mint (?offers ! j) = ''NM'' \<and> Language (?offers ! j) = ''English''
         \<and> Edition (?offers ! j) = False)"
    by (simp add: offer_nm_en_first_def)
  from C9_first_match_wins [OF 1 2 3] show ?thesis
    by (simp add: offer_nm_en_plain_def offer_nm_en_cheap_def)
qed

section \<open>Claims C3 and C7: the offer extractor\<close>

lemma trimFront_suffix: "suffix (trimFront runes s) s"
proof (induction runes s rule: trimFront.induct)
  case (1 runes s)
  show ?case
  proof (cases "spaceAt runes s = 0")
    case True
    then show ?thesis by (simp add: trimFront.simps [of runes s])
  next
    case False
    with 1 have "suffix (trimFront runes (drop (spaceAt runes s) s)) (drop (spaceAt runes s) s)"
      by simp
    then have "suffix (trimFront runes (drop (spaceAt runes s) s)) s"
      using suffix_drop suffix_order.trans by blast
    with False show ?thesis by (simp add: trimFront.simps [of runes s])
  qed
qed

lemma TrimSpace_subset: "set (TrimSpace s) \<subseteq> set s"
proof -
  have "set (trimFront (map rev spaceRunes) (rev (trimFront spaceRunes s)))
        \<subseteq> set (rev (trimFront spaceRunes s))"
    using trimFront_suffix by (rule set_mono_suffix)
  also have "\<dots> \<subseteq> set s"
    using set_mono_suffix [OF trimFront_suffix [of spaceRunes s]] by simp
  finally show ?thesis by (simp add: TrimSpace_def)
qed

lemma processRows_eq:
  "processRows body rws i k res = res @ List.map_filter body (map rws [i..<i + k])"
proof (induction k arbitrary: i res)
  case 0
  show ?case by (simp add: List.map_filter_simps)
next
  case (Suc k)
  have "[i..<i + Suc k] = i # [Suc i..<Suc i + k]" by (simp add: upt_rec)
  then show ?case
    by (simp add: Suc List.map_filter_simps split: option.splits)
qed

lemma processRows_member:
  assumes "j < k" "body (rws j) = Some off"
  shows "off \<in> set (processRows body rws 0 k [])"
proof -
  have "j \<in> set [0..<0 + k]" using assms(1) by simp
  then have "\<exists>x\<in>set (map rws [0..<0 + k]). body x = Some off"
    using assms(2) by auto
  then show ?thesis
    unfolding processRows_eq by (auto simp: List.map_filter_def intro!: image_eqI)
qed

lemma rowOffer_price:
  assumes "r = EvalObject obj" "asBool (map_of obj ''success'') = Some True"
    "asString (map_of obj ''price'') = Some p"
  shows "\<exists>off. rowOffer r = Some off \<and> Price off = TrimSpace p
           \<and> PriceNum off = extractNumericPrice (TrimSpace p)"
  using assms by (simp add: rowOffer_def trimmedField_def Let_def)

lemma findTheCard_self: "off \<in> set offers \<Longrightarrow>
  findTheCard offers (Mint off) (Language off) (Edition off) \<noteq> None"
  using findTheCard_None [of offers "Mint off" "Language off" "Edition off"]
  by (auto simp: matches_def)

text \<open>
  C7.  If the price text has no digit, \<^verbatim>\<open>extractNumericPrice\<close> returns 0 (also on the trimmed
  text).  And when the page loads, counts \<open>n\<close> article rows, and the script on row \<open>i < n\<close>
  reports success with such a price text, \<^verbatim>\<open>getInfos\<close> returns a list that contains the offer
  built from that row, with the trimmed price text and the numeric price 0; the matcher
  finds a card when asked for the attributes of that offer.
\<close>

theorem C7_zero_price_offer_kept:
  assumes "\<forall>c\<in>set p. \<not> isDigit c"
  shows "extractNumericPrice p = 0 \<and> extractNumericPrice (TrimSpace p) = 0
    \<and> (body_ok pg \<and> rows_count pg = Some n \<and> i < n \<and> rows pg i = EvalObject obj
          \<and> asBool (map_of obj ''success'') = Some True
          \<and> asString (map_of obj ''price'') = Some p \<longrightarrow>
        (\<exists>offers off. snd (getInfos pg) = Inr offers \<and> off \<in> set offers
            \<and> rowOffer (rows pg i) = Some off \<and> Price off = TrimSpace p \<and> PriceNum off = 0
            \<and> findTheCard offers (Mint off) (Language off) (Edition off) \<noteq> None))"
proof (intro conjI impI)
  show "extractNumericPrice p = 0" using assms by (rule extract_no_digit)
  have t: "\<forall>c\<in>set (TrimSpace p). \<not> isDigit c" using assms TrimSpace_subset [of p] by blast
  then show z: "extractNumericPrice (TrimSpace p) = 0" by (rule extract_no_digit)
  assume h: "body_ok pg \<and> rows_count pg = Some n \<and> i < n \<and> rows pg i = EvalObject obj
          \<and> asBool (map_of obj ''success'') = Some True
          \<and> asString (map_of obj ''price'') = Some p"
  then obtain off where off: "rowOffer (rows pg i) = Some off" "Price off = TrimSpace p"
    "PriceNum off = extractNumericPrice (TrimSpace p)"
    using rowOffer_price [of "rows pg i" obj p] by blast
  from h have n: "n \<noteq> 0" by auto
  let ?offers = "processRows rowOffer (rows pg) 0 n []"
  from h n have g: "snd (getInfos pg) = Inr ?offers" by (simp add: getInfos_def)
  from h off(1) have m: "off \<in> set ?offers" by (intro processRows_member [of i]) simp_all
  then have "findTheCard ?offers (Mint off) (Language off) (Edition off) \<noteq> None"
    by (rule findTheCard_self)
  with g m off z show "\<exists>offers off. snd (getInfos pg) = Inr offers \<and> off \<in> set offers
            \<and> rowOffer (rows pg i) = Some off \<and> Price off = TrimSpace p \<and> PriceNum off = 0
            \<and> findTheCard offers (Mint off) (Language off) (Edition off) \<noteq> None"
    by auto
qed

theorem C7_zero_price_offer_kept_witness:
  "extractNumericPrice ''N/A'' = 0
   \<and> (\<exists>offers off. snd (getInfos two_row_page) = Inr offers \<and> off \<in> set offers
         \<and> Price off = TrimSpace ''N/A'' \<and> PriceNum off = 0)"
proof -
  have d: "\<forall>c\<in>set ''N/A''. \<not> isDigit c" by (simp add: isDigit_def)
  have p: "body_ok two_row_page \<and> rows_count two_row_page = Some 2 \<and> (1::nat) < 2
      \<and> rows two_row_page 1 = EvalObject
           [(''mint'', JString ''NM''), (''langue'', JString ''English''),
            (''edition'', JBool False), (''price'', JString ''N/A''),
            (''success'', JBool True), (''rarity'', JString []), (''set_name'', JString [])]
      \<and> asBool (map_of [(''mint'', JString ''NM''), (''langue'', JString ''English''),
            (''edition'', JBool False), (''price'', JString ''N/A''),
            (''success'', JBool True), (''rarity'', JString []), (''set_name'', JString [])]
            ''success'') = Some True
      \<and> asString (map_of [(''mint'', JString ''NM''), (''langue'', JString ''English''),
            (''edition'', JBool False), (''price'', JString ''N/A''),
            (''success'', JBool True), (''rarity'', JString []), (''set_name'', JString [])]
            ''price'') = Some ''N/A''"
    by (simp add: two_row_page_def row_object_def asBool_def asString_def)
  note t = C7_zero_price_offer_kept [OF d, of two_row_page 2 1]
  from t [THEN conjunct1] t [THEN conjunct2, THEN conjunct2, rule_format, OF p]
  show ?thesis by blast
qed

text \<open>
  C3, as stated, fails: \<open>table_page\<close> has no article-row element and three table rows that
  the first alternative selector finds; \<^verbatim>\<open>getInfos\<close> logs that count and returns the empty
  list of offers, without error.
\<close>

theorem C3_counterexample:
  "body_ok table_page \<and> rows_count table_page = Some 0
   \<and> alt_count table_page ''tr[data-product]'' = Some 3
   \<and> fst (getInfos table_page) = [(''tr[data-product]'', 3)]
   \<and> snd (getInfos table_page) = Inr []"
  by (simp add: table_page_def getInfos_def probeAlternatives_def alternativeSelectors_def
      List.map_filter_simps)

text \<open>
  C3, amended.  On every page where the body loads and the count of article-row elements is
  zero, \<^verbatim>\<open>getInfos\<close> returns the empty list of offers and no error, whatever else the page
  contains: the alternative selectors are counted for the log only, and no other strategy
  runs.  \<^verbatim>\<open>getInfosPatient\<close> does the same, and an attempt on such a page finds no card.
\<close>

theorem C3_no_rows_gives_empty_list:
  assumes "body_ok pg" "rows_count pg = Some 0"
  shows "getInfos pg = (probeAlternatives pg, Inr [])
    \<and> getInfosPatient pg = Inr []
    \<and> launchLoop quality langue edition load pg = None
    \<and> launchLoopPatient quality langue edition load pg = None"
  using assms
  by (simp add: getInfos_def getInfosPatient_def launchLoop_def launchLoopPatient_def
      split: option.splits)

theorem C3_no_rows_gives_empty_list_witness:
  "body_ok table_page \<and> rows_count table_page = Some 0
   \<and> getInfos table_page = (probeAlternatives table_page, Inr [])
   \<and> getInfosPatient table_page = Inr []
   \<and> launchLoop ''NM'' ''English'' False True table_page = None
   \<and> launchLoopPatient ''NM'' ''English'' False True table_page = None"
proof -
  have h: "body_ok table_page" "rows_count table_page = Some 0"
    by (simp_all add: table_page_def)
  from C3_no_rows_gives_empty_list [OF h, of "''NM''" "''English''" False True] h
  show ?thesis by simp
qed

section \<open>Properties of the card detail enricher\<close>

lemma trim_sentinel: "TrimSpace ''Carte inconnue'' = ''Carte inconnue''"
  by code_simp

lemma trim_fixture: "TrimSpace ''LOB'' = ''LOB''" "TrimSpace ''Rare'' = ''Rare''"
  "TrimSpace '' Dark Magician '' = ''Dark Magician''"
  by code_simp+

lemma headingName_eq:
  "headingName pg =
     (if h1_text pg = None \<or> h1_text pg = Some [] then ''Carte inconnue''
      else TrimSpace (the (h1_text pg)))"
  by (auto simp: headingName_def trim_sentinel split: option.splits)

lemma extractCardDetails_eq:
  "extractCardDetails pg result info =
     (Inr (info\<lparr>info_Offers := [result], info_Price := Price result,
               info_PriceNum := PriceNum result, info_Name := headingName pg,
               info_Set := (if infoField pg ''set_name'' \<noteq> [] then infoField pg ''set_name''
                            else if SetName result \<noteq> [] then SetName result
                            else ''Set inconnu''),
               info_Rarity := (if infoField pg ''rarity'' \<noteq> [] then infoField pg ''rarity''
                               else if Rarity result \<noteq> [] then Rarity result
                               else unknownRarity)\<rparr>),
      result\<lparr>SetName := (if infoField pg ''set_name'' \<noteq> [] then infoField pg ''set_name''
                          else SetName result),
             Rarity := (if infoField pg ''rarity'' \<noteq> [] then infoField pg ''rarity''
                        else Rarity result)\<rparr>)"
  by (simp add: extractCardDetails_def Let_def)

lemma scrapeCardInfo_details_eq:
  "scrapeCardInfo_details pg result info =
     (Inr (info\<lparr>info_Name := headingName pg,
               info_Set := (if infoFieldTwice pg ''set_name'' \<noteq> []
                            then infoFieldTwice pg ''set_name''
                            else if SetName result \<noteq> [] then SetName result
                            else ''Set inconnu''),
               info_Rarity := (if infoFieldTwice pg ''rarity'' \<noteq> []
                               then infoFieldTwice pg ''rarity''
                               else if Rarity result \<noteq> [] then Rarity result
                               else unknownRarity),
               info_Offers :=
                 [result\<lparr>SetName := (if infoFieldTwice pg ''set_name'' \<noteq> []
                                       then infoFieldTwice pg ''set_name'' else SetName result),
                         Rarity := (if infoFieldTwice pg ''rarity'' \<noteq> []
                                    then infoFieldTwice pg ''rarity'' else Rarity result)\<rparr>],
               info_Price := Price result, info_PriceNum := PriceNum result\<rparr>),
      result\<lparr>SetName := (if infoFieldTwice pg ''set_name'' \<noteq> []
                          then infoFieldTwice pg ''set_name'' else SetName result),
             Rarity := (if infoFieldTwice pg ''rarity'' \<noteq> []
                        then infoFieldTwice pg ''rarity'' else Rarity result)\<rparr>)"
  by (simp add: scrapeCardInfo_details_def Let_def)

lemma infoFieldTwice_eq: "infoFieldTwice pg key = infoField pg key"
  by (simp add: infoFieldTwice_def infoField_def split: eval_result.splits)


section \<open>The order of the acquisition attempts\<close>

lemma runLaunchLoop_world:
  assumes "runLaunchLoop patient mode req load w = (w', r)"
  shows "goos w' = goos w" "connect_ok w' = connect_ok w" "serve w' = serve w"
    "loads w' = Suc (loads w)" "attempts w' = attempts w @ [(mode, load, r \<noteq> None)]"
  using assms by (auto simp: runLaunchLoop_def Let_def)

lemma ordered_trace_empty: "ordered_trace [] [] False"
  by (simp add: ordered_trace_def)

lemma ordered_trace_single: "ordered_trace [(mode, load)] [(mode, load, h)] h"
  by (simp add: ordered_trace_def pair_of_def hit_def)

lemma ordered_trace_all_miss:
  assumes "ordered_trace s n False"
  shows "list_all (\<lambda>a. \<not> hit a) n" "map pair_of n = s"
proof -
  from assms have b: "list_all (\<lambda>a. \<not> hit a) (butlast n)" and l: "n = [] \<or> \<not> hit (last n)"
    and "map pair_of n = s"
    by (auto simp: ordered_trace_def)
  then show "map pair_of n = s" by simp
  show "list_all (\<lambda>a. \<not> hit a) n"
  proof (cases "n = []")
    case True
    then show ?thesis by simp
  next
    case False
    then have "set n = insert (last n) (set (butlast n))"
      by (metis append_butlast_last_id list.simps(15) rotate1.simps(2) set_rotate1)
    moreover from False l have "\<not> hit (last n)" by simp
    ultimately show ?thesis using b by (auto simp: list_all_iff)
  qed
qed

lemma ordered_trace_miss_then:
  assumes "ordered_trace s1 n1 False" "ordered_trace s2 n2 found"
  shows "ordered_trace (s1 @ s2) (n1 @ n2) found"
proof -
  note m = ordered_trace_all_miss [OF assms(1)]
  from assms(2) have p: "prefix (map pair_of n2) s2"
    and b: "list_all (\<lambda>a. \<not> hit a) (butlast n2)"
    and f: "found = (n2 \<noteq> [] \<and> hit (last n2))"
    and c: "found \<or> map pair_of n2 = s2"
    by (auto simp: ordered_trace_def)
  have 1: "prefix (map pair_of (n1 @ n2)) (s1 @ s2)" using m(2) p by auto
  have 2: "list_all (\<lambda>a. \<not> hit a) (butlast (n1 @ n2))"
    using m(1) b by (cases "n2 = []") (auto simp: butlast_append list_all_iff dest: in_set_butlastD)
  have 3: "found = (n1 @ n2 \<noteq> [] \<and> hit (last (n1 @ n2)))"
  proof (cases "n2 = []")
    case True
    with f have "\<not> found" by simp
    moreover from m(1) have "n1 = [] \<or> \<not> hit (last n1)"
      by (auto simp: list_all_iff)
    ultimately show ?thesis using True by auto
  next
    case False
    with f show ?thesis by simp
  qed
  have 4: "found \<or> map pair_of (n1 @ n2) = s1 @ s2" using c m(2) by auto
  from 1 2 3 4 show ?thesis unfolding ordered_trace_def by blast
qed

lemma ordered_trace_hit_stop:
  assumes "ordered_trace s1 n1 True"
  shows "ordered_trace (s1 @ s2) n1 True"
  using assms by (auto simp: ordered_trace_def)

text \<open>The retry loop of one configuration.\<close>

lemma scrapeWithRetries_from_trace:
  assumes "scrapeWithRetries_from mode req as w = (w', r)"
  shows "goos w' = goos w \<and> connect_ok w' = connect_ok w \<and> serve w' = serve w
    \<and> (\<exists>new. attempts w' = attempts w @ new
          \<and> ordered_trace (map (\<lambda>attempt. (mode, fst (snd attempt))) as) new (r \<noteq> None))"
  using assms
proof (induction as arbitrary: w)
  case Nil
  then show ?case using ordered_trace_empty by auto
next
  case (Cons attempt rest)
  obtain w1 r1 where step: "runLaunchLoop True mode req (fst (snd attempt)) w = (w1, r1)"
    by (cases "runLaunchLoop True mode req (fst (snd attempt)) w")
  note fields = runLaunchLoop_world [OF step]
  let ?one = "[(mode, fst (snd attempt), r1 \<noteq> None)]"
  have one: "ordered_trace [(mode, fst (snd attempt))] ?one (r1 \<noteq> None)"
    by (rule ordered_trace_single)
  show ?case
  proof (cases r1)
    case None
    with step Cons.prems have rest: "scrapeWithRetries_from mode req rest w1 = (w', r)" by simp
    from Cons.IH [OF rest] obtain new where
      e: "goos w' = goos w1" "connect_ok w' = connect_ok w1" "serve w' = serve w1"
      and n: "attempts w' = attempts w1 @ new"
      and t: "ordered_trace (map (\<lambda>attempt. (mode, fst (snd attempt))) rest) new (r \<noteq> None)"
      by blast
    from one None have "ordered_trace [(mode, fst (snd attempt))] ?one False" by simp
    from ordered_trace_miss_then [OF this t]
    have "ordered_trace (map (\<lambda>attempt. (mode, fst (snd attempt))) (attempt # rest))
            (?one @ new) (r \<noteq> None)" by simp
    moreover have "attempts w' = attempts w @ (?one @ new)" using n fields(5) by simp
    ultimately show ?thesis using e fields(1-3) by metis
  next
    case (Some result)
    with step Cons.prems have eq: "w' = w1" "r = Some result" by simp_all
    from one Some have "ordered_trace [(mode, fst (snd attempt))] ?one True" by simp
    from ordered_trace_hit_stop [OF this, of "map (\<lambda>attempt. (mode, fst (snd attempt))) rest"]
    have "ordered_trace (map (\<lambda>attempt. (mode, fst (snd attempt))) (attempt # rest)) ?one True"
      by simp
    then show ?thesis using eq fields Some by auto
  qed
qed

lemma extractCardDetails_Inr: "\<exists>info'. fst (extractCardDetails pg result info) = Inr info'"
  by (simp add: extractCardDetails_def Let_def split: prod.splits)

lemma scrapeCardInfo_details_Inr:
  "\<exists>info'. fst (scrapeCardInfo_details pg result info) = Inr info'"
  by (simp add: scrapeCardInfo_details_def Let_def split: prod.splits)

text \<open>One configuration: nothing is tried when the browser does not connect.\<close>

lemma attemptScrapeWithMode_trace:
  assumes "attemptScrapeWithMode req mode w = (w', res)"
  shows "goos w' = goos w \<and> connect_ok w' = connect_ok w \<and> serve w' = serve w
    \<and> (\<exists>new. attempts w' = attempts w @ new
          \<and> ordered_trace
               (if connect_ok w mode then map (\<lambda>attempt. (mode, fst (snd attempt))) retryAttempts
                else [])
               new (\<not> isl res))"
proof (cases "connect_ok w mode")
  case False
  with assms have "w' = w" "res = Inl (ModeConnectionFailed mode)"
    by (simp_all add: attemptScrapeWithMode_def)
  with False show ?thesis using ordered_trace_empty by auto
next
  case True
  obtain w1 r where s: "scrapeWithRetries_from mode req retryAttempts w = (w1, r)"
    by (cases "scrapeWithRetries_from mode req retryAttempts w")
  from scrapeWithRetries_from_trace [OF s] obtain new where
    e: "goos w1 = goos w" "connect_ok w1 = connect_ok w" "serve w1 = serve w"
    and n: "attempts w1 = attempts w @ new"
    and t: "ordered_trace (map (\<lambda>attempt. (mode, fst (snd attempt))) retryAttempts) new (r \<noteq> None)"
    by blast
  show ?thesis
  proof (cases r)
    case None
    with assms True s have "w' = w1" "res = Inl (NoCardInMode mode)"
      by (simp_all add: attemptScrapeWithMode_def scrapeWithRetries_def)
    with None True e n t show ?thesis by auto
  next
    case (Some result)
    with assms True s have w': "w' = w1\<lparr>loads := Suc (loads w1)\<rparr>"
      and res: "res = fst (extractCardDetails (serve w1 (loads w1) False) result emptyInfo)"
      by (simp_all add: attemptScrapeWithMode_def scrapeWithRetries_def loadDetails_def)
    from res have "\<not> isl res" using extractCardDetails_Inr by (metis sum.disc(2))
    with Some True e n t w' show ?thesis by auto
  qed
qed

text \<open>The loop over the configurations.\<close>

lemma scrapeWithMultipleModes_from_trace:
  assumes "scrapeWithMultipleModes_from req ms w = (w', res)"
  shows "goos w' = goos w \<and> connect_ok w' = connect_ok w \<and> serve w' = serve w
    \<and> (\<exists>new. attempts w' = attempts w @ new
          \<and> ordered_trace
               (concat (map (\<lambda>mode. if connect_ok w mode
                                     then map (\<lambda>attempt. (mode, fst (snd attempt))) retryAttempts
                                     else []) ms))
               new (\<not> isl res))"
  using assms
proof (induction ms arbitrary: w)
  case Nil
  then have "w' = w" "res = Inl AllModesFailed" by simp_all
  then show ?case using ordered_trace_empty by simp
next
  case (Cons mode rest)
  define block where "block = (\<lambda>ok mode. if ok mode
      then map (\<lambda>attempt. (mode, fst (snd attempt))) retryAttempts else ([] :: (string \<times> bool) list))"
  obtain w1 r1 where step: "attemptScrapeWithMode req mode w = (w1, r1)"
    by (cases "attemptScrapeWithMode req mode w")
  from attemptScrapeWithMode_trace [OF step] obtain n1 where
    e1: "goos w1 = goos w" "connect_ok w1 = connect_ok w" "serve w1 = serve w"
    and a1: "attempts w1 = attempts w @ n1"
    and t1: "ordered_trace (block (connect_ok w) mode) n1 (\<not> isl r1)"
    unfolding block_def by blast
  have goal_sched: "concat (map (\<lambda>mode. if connect_ok w mode
                                     then map (\<lambda>attempt. (mode, fst (snd attempt))) retryAttempts
                                     else []) (mode # rest)) =
        block (connect_ok w) mode @ concat (map (block (connect_ok w)) rest)"
    unfolding block_def by simp
  show ?case
  proof (cases r1)
    case (Inl err)
    with step Cons.prems have rest: "scrapeWithMultipleModes_from req rest w1 = (w', res)"
      by simp
    from Cons.IH [OF rest] obtain n2 where
      e2: "goos w' = goos w1" "connect_ok w' = connect_ok w1" "serve w' = serve w1"
      and a2: "attempts w' = attempts w1 @ n2"
      and t2: "ordered_trace (concat (map (block (connect_ok w1)) rest)) n2 (\<not> isl res)"
      unfolding block_def by blast
    from t2 have t2': "ordered_trace (concat (map (block (connect_ok w)) rest)) n2 (\<not> isl res)"
      by (simp only: e1(2))
    from t1 Inl have "ordered_trace (block (connect_ok w) mode) n1 False" by simp
    from ordered_trace_miss_then [OF this t2']
    have t: "ordered_trace (block (connect_ok w) mode @ concat (map (block (connect_ok w)) rest))
              (n1 @ n2) (\<not> isl res)" .
    have a: "attempts w' = attempts w @ (n1 @ n2)" using a1 a2 by simp
    show ?thesis
      unfolding goal_sched
    proof (intro conjI exI [of _ "n1 @ n2"])
      show "goos w' = goos w" using e1(1) e2(1) by simp
      show "connect_ok w' = connect_ok w" using e1(2) e2(2) by simp
      show "serve w' = serve w" using e1(3) e2(3) by simp
    qed (fact a t)+
  next
    case (Inr result)
    with step Cons.prems have eq: "w' = w1" "res = Inr result" by simp_all
    from t1 Inr have "ordered_trace (block (connect_ok w) mode) n1 True" by simp
    from ordered_trace_hit_stop [OF this, of "concat (map (block (connect_ok w)) rest)"]
    have t: "ordered_trace (block (connect_ok w) mode @ concat (map (block (connect_ok w)) rest))
              n1 (\<not> isl res)"
      using eq(2) by simp
    show ?thesis
      unfolding goal_sched
    proof (intro conjI exI [of _ n1])
      show "goos w' = goos w" using e1(1) eq(1) by simp
      show "connect_ok w' = connect_ok w" using e1(2) eq(1) by simp
      show "serve w' = serve w" using e1(3) eq(1) by simp
      show "attempts w' = attempts w @ n1" using a1 eq(1) by simp
    qed (fact t)
  qed
qed

lemma filter_schedule_windows:
  "filter (\<lambda>p. ok (fst p))
     (concat (map (\<lambda>mode. map (\<lambda>attempt. (mode, fst (snd attempt))) as) ms)) =
   concat (map (\<lambda>mode. if ok mode then map (\<lambda>attempt. (mode, fst (snd attempt))) as else []) ms)"
  by (induction ms) (auto simp: filter_map comp_def)

lemma two_attempts_trace:
  assumes "runLaunchLoop False mode req False w = (w1, r1)"
    and "(if r1 = None then runLaunchLoop False mode req True w1 else (w1, r1)) = (w2, r2)"
  shows "goos w2 = goos w \<and> connect_ok w2 = connect_ok w \<and> serve w2 = serve w
    \<and> (\<exists>new. attempts w2 = attempts w @ new
          \<and> ordered_trace [(mode, False), (mode, True)] new (r2 \<noteq> None))"
proof (cases r1)
  case None
  with assms(2) have s2: "runLaunchLoop False mode req True w1 = (w2, r2)" by simp
  note f1 = runLaunchLoop_world [OF assms(1)] and f2 = runLaunchLoop_world [OF s2]
  have "ordered_trace [(mode, False)] [(mode, False, r1 \<noteq> None)] False"
    using ordered_trace_single [of mode False False] None by simp
  from ordered_trace_miss_then [OF this ordered_trace_single [of mode True "r2 \<noteq> None"]]
  have "ordered_trace [(mode, False), (mode, True)]
          [(mode, False, r1 \<noteq> None), (mode, True, r2 \<noteq> None)] (r2 \<noteq> None)" by simp
  moreover have "attempts w2 = attempts w @ [(mode, False, r1 \<noteq> None), (mode, True, r2 \<noteq> None)]"
    using f1(5) f2(5) by simp
  ultimately show ?thesis using f1(1-3) f2(1-3) by metis
next
  case (Some result)
  with assms(2) have eq: "w2 = w1" "r2 = r1" by simp_all
  note f1 = runLaunchLoop_world [OF assms(1)]
  have "ordered_trace [(mode, False)] [(mode, False, r1 \<noteq> None)] True"
    using ordered_trace_single [of mode False True] Some by simp
  from ordered_trace_hit_stop [OF this, of "[(mode, True)]"]
  have "ordered_trace [(mode, False), (mode, True)] [(mode, False, r1 \<noteq> None)] (r2 \<noteq> None)"
    using eq Some by simp
  then show ?thesis using eq f1 by auto
qed

lemma prefix_nth: "prefix xs ys \<Longrightarrow> i < length xs \<Longrightarrow> ys ! i = xs ! i"
  by (auto simp: prefix_def nth_append)

lemma expanded_from_ordered:
  assumes "ordered_trace s new found"
    and "\<forall>i<length s. snd (s ! i) \<longrightarrow> (\<exists>j<i. s ! j = (fst (s ! i), False))"
  shows "expanded_after_shallow new"
  unfolding expanded_after_shallow_def
proof (intro allI impI)
  fix i assume i: "i < length new" and e: "fst (snd (new ! i))"
  from assms(1) have p: "prefix (map pair_of new) s"
    and b: "list_all (\<lambda>a. \<not> hit a) (butlast new)"
    by (auto simp: ordered_trace_def)
  from p have len: "length new \<le> length s" using prefix_length_le by fastforce
  have nth: "\<And>k. k < length new \<Longrightarrow> s ! k = pair_of (new ! k)"
    using prefix_nth [OF p] by simp
  from i e have si: "snd (s ! i)" by (simp add: nth pair_of_def)
  from i len have "i < length s" by simp
  with assms(2) si have "\<exists>j<i. s ! j = (fst (s ! i), False)" by blast
  then obtain j where j: "j < i" "s ! j = (fst (s ! i), False)" by blast
  from j(1) i have jl: "j < length (butlast new)" by simp
  then have "butlast new ! j \<in> set (butlast new)" by (rule nth_mem)
  with b have "\<not> hit (butlast new ! j)" by (simp add: list_all_iff)
  with jl have nh: "\<not> hit (new ! j)" by (simp add: nth_butlast)
  from j i have "pair_of (new ! j) = (fst (pair_of (new ! i)), False)" by (simp add: nth)
  with nh have "new ! j = (fst (new ! i), False, False)"
    by (cases "new ! j") (auto simp: pair_of_def hit_def)
  with j(1) show "\<exists>j<i. new ! j = (fst (new ! i), False, False)" by blast
qed

lemma shallow_first_append:
  assumes "\<forall>i<length s1. snd (s1 ! i) \<longrightarrow> (\<exists>j<i. s1 ! j = (fst (s1 ! i), False))"
    and "\<forall>i<length s2. snd (s2 ! i) \<longrightarrow> (\<exists>j<i. s2 ! j = (fst (s2 ! i), False))"
  shows "\<forall>i<length (s1 @ s2). snd ((s1 @ s2) ! i) \<longrightarrow>
           (\<exists>j<i. (s1 @ s2) ! j = (fst ((s1 @ s2) ! i), False))"
proof (intro allI impI)
  fix i assume i: "i < length (s1 @ s2)" and e: "snd ((s1 @ s2) ! i)"
  show "\<exists>j<i. (s1 @ s2) ! j = (fst ((s1 @ s2) ! i), False)"
  proof (cases "i < length s1")
    case True
    with e assms(1) obtain j where "j < i" "s1 ! j = (fst (s1 ! i), False)"
      by (auto simp: nth_append)
    with True show ?thesis by (auto simp: nth_append intro!: exI [of _ j])
  next
    case False
    define k where "k = i - length s1"
    from False i have k: "k < length s2" "(s1 @ s2) ! i = s2 ! k"
      by (auto simp: k_def nth_append)
    with e assms(2) obtain j where j: "j < k" "s2 ! j = (fst (s2 ! k), False)" by auto
    then have "length s1 + j < i" "(s1 @ s2) ! (length s1 + j) = (fst ((s1 @ s2) ! i), False)"
      using False k by (auto simp: k_def nth_append)
    then show ?thesis by blast
  qed
qed

lemma shallow_first_block:
  "\<forall>i<length (map (\<lambda>attempt. (mode, fst (snd attempt))) retryAttempts).
     snd (map (\<lambda>attempt. (mode, fst (snd attempt))) retryAttempts ! i) \<longrightarrow>
     (\<exists>j<i. map (\<lambda>attempt. (mode, fst (snd attempt))) retryAttempts ! j =
        (fst (map (\<lambda>attempt. (mode, fst (snd attempt))) retryAttempts ! i), False))"
proof (intro allI impI)
  fix i
  assume "i < length (map (\<lambda>attempt. (mode, fst (snd attempt))) retryAttempts)"
    and e: "snd (map (\<lambda>attempt. (mode, fst (snd attempt))) retryAttempts ! i)"
  then have "i = 0 \<or> i = 1 \<or> i = 2 \<or> i = 3" by (auto simp: retryAttempts_def)
  with e have "i = 2 \<or> i = 3" by (auto simp: retryAttempts_def)
  then show "\<exists>j<i. map (\<lambda>attempt. (mode, fst (snd attempt))) retryAttempts ! j =
        (fst (map (\<lambda>attempt. (mode, fst (snd attempt))) retryAttempts ! i), False)"
    by (auto simp: retryAttempts_def intro!: exI [of _ 0])
qed

lemma shallow_first_blocks:
  "\<forall>i<length (concat (map (\<lambda>mode. if ok mode
        then map (\<lambda>attempt. (mode, fst (snd attempt))) retryAttempts else []) ms)).
     snd (concat (map (\<lambda>mode. if ok mode
        then map (\<lambda>attempt. (mode, fst (snd attempt))) retryAttempts else []) ms) ! i) \<longrightarrow>
     (\<exists>j<i. concat (map (\<lambda>mode. if ok mode
        then map (\<lambda>attempt. (mode, fst (snd attempt))) retryAttempts else []) ms) ! j =
        (fst (concat (map (\<lambda>mode. if ok mode
        then map (\<lambda>attempt. (mode, fst (snd attempt))) retryAttempts else []) ms) ! i), False))"
proof (induction ms)
  case Nil
  show ?case by simp
next
  case (Cons mode rest)
  show ?case
  proof (cases "ok mode")
    case True
    from shallow_first_append [OF shallow_first_block [of mode] Cons]
    show ?thesis using True by simp
  next
    case False
    with Cons show ?thesis by simp
  qed
qed

lemma shallow_first_two:
  "\<forall>i<length [(mode, False), (mode, True)]. snd ([(mode, False), (mode, True)] ! i) \<longrightarrow>
     (\<exists>j<i. [(mode, False), (mode, True)] ! j = (fst ([(mode, False), (mode, True)] ! i), False))"
proof (intro allI impI)
  fix i assume "i < length [(mode, False), (mode, True)]"
    and e: "snd ([(mode, False), (mode, True)] ! i)"
  then have "i = 1" by (cases i) auto
  then show "\<exists>j<i. [(mode, False), (mode, True)] ! j =
      (fst ([(mode, False), (mode, True)] ! i), False)"
    by (auto intro!: exI [of _ 0])
qed

lemma scrapeWithMultipleModes_trace:
  assumes "scrapeWithMultipleModes req w = (w', res)" "goos w = ''windows''"
  shows "\<exists>new. attempts w' = attempts w @ new
    \<and> ordered_trace (filter (\<lambda>p. connect_ok w (fst p)) (schedule_goos (goos w))) new (\<not> isl res)
    \<and> expanded_after_shallow new"
proof -
  from assms(1) have "scrapeWithMultipleModes_from req modes w = (w', res)"
    by (simp add: scrapeWithMultipleModes_def)
  from scrapeWithMultipleModes_from_trace [OF this] obtain new where
    a: "attempts w' = attempts w @ new"
    and t: "ordered_trace
               (concat (map (\<lambda>mode. if connect_ok w mode
                                     then map (\<lambda>attempt. (mode, fst (snd attempt))) retryAttempts
                                     else []) modes))
               new (\<not> isl res)"
    by blast
  have s: "filter (\<lambda>p. connect_ok w (fst p)) (schedule_goos (goos w)) =
      concat (map (\<lambda>mode. if connect_ok w mode
                           then map (\<lambda>attempt. (mode, fst (snd attempt))) retryAttempts
                           else []) modes)"
    unfolding schedule_goos_def assms(2) by (simp only: simp_thms if_True filter_schedule_windows)
  from expanded_from_ordered [OF t shallow_first_blocks] have x: "expanded_after_shallow new" .
  show ?thesis
  proof (intro exI [of _ new] conjI)
    show "ordered_trace (filter (\<lambda>p. connect_ok w (fst p)) (schedule_goos (goos w))) new
            (\<not> isl res)"
      unfolding s by (fact t)
  qed (fact a x)+
qed

lemma scrapeWithStandardMode_trace:
  assumes "scrapeWithStandardMode req w = (w', res)" "goos w \<noteq> ''windows''"
  shows "\<exists>new. attempts w' = attempts w @ new
    \<and> ordered_trace (filter (\<lambda>p. connect_ok w (fst p)) (schedule_goos (goos w))) new (\<not> isl res)
    \<and> expanded_after_shallow new"
proof (cases "connect_ok w ''standard''")
  case False
  with assms(1) have "w' = w" "res = Inl BrowserConnectionFailed"
    by (simp_all add: scrapeWithStandardMode_def)
  moreover from False assms(2)
  have "filter (\<lambda>p. connect_ok w (fst p)) (schedule_goos (goos w)) = []"
    by (simp add: schedule_goos_def)
  moreover have "expanded_after_shallow []" by (simp add: expanded_after_shallow_def)
  ultimately show ?thesis using ordered_trace_empty by simp
next
  case True
  obtain w1 r1 where s1: "runLaunchLoop False ''standard'' req False w = (w1, r1)"
    by (cases "runLaunchLoop False ''standard'' req False w")
  obtain w2 r2 where
    s2: "(if r1 = None then runLaunchLoop False ''standard'' req True w1 else (w1, r1)) = (w2, r2)"
    by (cases "if r1 = None then runLaunchLoop False ''standard'' req True w1 else (w1, r1)")
  from two_attempts_trace [OF s1 s2] obtain new where
    a: "attempts w2 = attempts w @ new"
    and t: "ordered_trace [(''standard'', False), (''standard'', True)] new (r2 \<noteq> None)"
    by blast
  from True assms(2)
  have s: "filter (\<lambda>p. connect_ok w (fst p)) (schedule_goos (goos w)) =
      [(''standard'', False), (''standard'', True)]"
    by (simp add: schedule_goos_def)
  from expanded_from_ordered [OF t shallow_first_two] have x: "expanded_after_shallow new" .
  have e: "attempts w' = attempts w2 \<and> (r2 \<noteq> None) = (\<not> isl res)"
  proof (cases r2)
    case None
    with assms(1) True s1 s2 show ?thesis
      by (auto simp: scrapeWithStandardMode_def)
  next
    case (Some result)
    with assms(1) True s1 s2
    have "w' = w2\<lparr>loads := Suc (loads w2)\<rparr>"
      "res = fst (extractCardDetails (serve w2 (loads w2) False) result emptyInfo)"
      by (simp_all add: scrapeWithStandardMode_def loadDetails_def)
    moreover have "\<not> isl (fst (extractCardDetails (serve w2 (loads w2) False) result emptyInfo))"
      using extractCardDetails_Inr by (metis sum.disc(2))
    ultimately show ?thesis using Some by simp
  qed
  show ?thesis
  proof (intro exI [of _ new] conjI)
    show "attempts w' = attempts w @ new" using a e by simp
    show "ordered_trace (filter (\<lambda>p. connect_ok w (fst p)) (schedule_goos (goos w))) new
            (\<not> isl res)"
      unfolding s using t e by simp
  qed (fact x)
qed

lemma scrapeCardInfo_trace:
  assumes "scrapeCardInfo req w = (w', res)"
  shows "\<exists>new. attempts w' = attempts w @ new
    \<and> ordered_trace schedule_app new (\<not> isl res) \<and> expanded_after_shallow new"
proof -
  obtain w1 r1 where s1: "runLaunchLoop False ''default'' req False w = (w1, r1)"
    by (cases "runLaunchLoop False ''default'' req False w")
  obtain w2 r2 where
    s2: "(if r1 = None then runLaunchLoop False ''default'' req True w1 else (w1, r1)) = (w2, r2)"
    by (cases "if r1 = None then runLaunchLoop False ''default'' req True w1 else (w1, r1)")
  from two_attempts_trace [OF s1 s2] obtain new where
    a: "attempts w2 = attempts w @ new"
    and t: "ordered_trace schedule_app new (r2 \<noteq> None)"
    unfolding schedule_app_def by blast
  from t have "ordered_trace [(''default'', False), (''default'', True)] new (r2 \<noteq> None)"
    by (simp add: schedule_app_def)
  from expanded_from_ordered [OF this shallow_first_two] have x: "expanded_after_shallow new" .
  have e: "attempts w' = attempts w2 \<and> (r2 \<noteq> None) = (\<not> isl res)"
  proof (cases r2)
    case None
    with assms(1) s1 s2 show ?thesis by (auto simp: scrapeCardInfo_def)
  next
    case (Some result)
    with assms(1) s1 s2
    have "w' = w2\<lparr>loads := Suc (loads w2)\<rparr>"
      "res = fst (scrapeCardInfo_details (serve w2 (loads w2) False) result emptyInfo)"
      by (simp_all add: scrapeCardInfo_def loadDetails_def)
    moreover have "\<not> isl (fst (scrapeCardInfo_details (serve w2 (loads w2) False) result emptyInfo))"
      using scrapeCardInfo_details_Inr by (metis sum.disc(2))
    ultimately show ?thesis using Some by simp
  qed
  show ?thesis
  proof (intro exI [of _ new] conjI)
    show "attempts w' = attempts w @ new" using a e by simp
    show "ordered_trace schedule_app new (\<not> isl res)" using t e by simp
  qed (fact x)
qed

subsection \<open>Attempts on the fixtures\<close>

lemma trim_attributes: "TrimSpace ''NM'' = ''NM''" "TrimSpace ''English'' = ''English''"
  "TrimSpace [] = []"
  by code_simp+

lemma launch_no_rows:
  assumes "body_ok pg" "rows_count pg = Some 0"
  shows "launchLoop quality langue edition load pg = None"
    "launchLoopPatient quality langue edition load pg = None"
  using assms
  by (simp_all add: getInfos_def getInfosPatient_def launchLoop_def launchLoopPatient_def
      split: option.splits)

lemma launch_table_page:
  "launchLoop quality langue edition load table_page = None"
  "launchLoopPatient quality langue edition load table_page = None"
  by (rule launch_no_rows; simp add: table_page_def)+

lemma launch_first_edition_page:
  "launchLoop ''NM'' ''English'' True load first_edition_page \<noteq> None"
  "launchLoopPatient ''NM'' ''English'' True load first_edition_page \<noteq> None"
  "launchLoop ''NM'' ''English'' False load first_edition_page = None"
  "launchLoopPatient ''NM'' ''English'' False load first_edition_page = None"
  by (simp_all add: launchLoop_def launchLoopPatient_def getPage_def getPagePatient_def
      getInfos_def getInfosPatient_def first_edition_page_def row_object_def rowOffer_def
      rowOfferPatient_def asBool_def asString_def trimmedField_def trim_attributes Let_def)

lemma attempts_expanded_only:
  "attempts (fst (scrapeCardInfo_goos (request ''NM'' ''English'' True)
      (fresh_world ''windows'' pages_expanded_only))) =
     [(''secure'', False, False), (''secure'', False, False), (''secure'', True, True)]"
  "attempts (fst (scrapeCardInfo_goos (request ''NM'' ''English'' True)
      (fresh_world ''linux'' pages_expanded_only))) =
     [(''standard'', False, False), (''standard'', True, True)]"
  "attempts (fst (scrapeCardInfo (request ''NM'' ''English'' True)
      (fresh_world ''linux'' pages_expanded_only))) =
     [(''default'', False, False), (''default'', True, True)]"
  by (simp_all add: scrapeCardInfo_goos_def scrapeWithMultipleModes_def modes_def
      attemptScrapeWithMode_def scrapeWithRetries_def retryAttempts_def runLaunchLoop_def
      scrapeWithStandardMode_def scrapeCardInfo_def
      fresh_world_def request_def pages_expanded_only_def loadDetails_def Let_def
      launch_table_page launch_first_edition_page extractCardDetails_eq
      scrapeCardInfo_details_eq split: option.splits prod.splits)

section \<open>Claim C6: the order of the attempts\<close>

text \<open>
  C6.  For every request and every world, the attempts that a scrape adds to the log
  \<^item> follow the configured schedule (configurations outer: secure, permissive, minimal on
    Windows, one configuration elsewhere; load depths inner: without, then with the extra
    content), restricted to the configurations whose browser connects, from its first pair
    on and without a gap;
  \<^item> all found no card, except possibly the last one, and the scrape succeeds exactly when the
    last attempt found a card: nothing is tried after a find, and without a find the whole
    schedule is tried;
  \<^item> contain an attempt with the extra content only after an attempt under the same
    configuration without it that found no card.
  This holds for \<^verbatim>\<open>scrapeCardInfo\<close> of the version with browser configurations and for that of
  app.go.
\<close>

theorem C6_attempts_in_order:
  "(\<exists>new. attempts (fst (scrapeCardInfo_goos req w)) = attempts w @ new
      \<and> ordered_trace (filter (\<lambda>p. connect_ok w (fst p)) (schedule_goos (goos w))) new
           (\<not> isl (snd (scrapeCardInfo_goos req w)))
      \<and> expanded_after_shallow new)
   \<and> (\<exists>new. attempts (fst (scrapeCardInfo req w)) = attempts w @ new
      \<and> ordered_trace schedule_app new (\<not> isl (snd (scrapeCardInfo req w)))
      \<and> expanded_after_shallow new)"
proof
  show "\<exists>new. attempts (fst (scrapeCardInfo_goos req w)) = attempts w @ new
      \<and> ordered_trace (filter (\<lambda>p. connect_ok w (fst p)) (schedule_goos (goos w))) new
           (\<not> isl (snd (scrapeCardInfo_goos req w)))
      \<and> expanded_after_shallow new"
  proof (cases "goos w = ''windows''")
    case True
    then have "scrapeWithMultipleModes req w =
        (fst (scrapeCardInfo_goos req w), snd (scrapeCardInfo_goos req w))"
      by (simp add: scrapeCardInfo_goos_def)
    from scrapeWithMultipleModes_trace [OF this True] show ?thesis .
  next
    case False
    then have "scrapeWithStandardMode req w =
        (fst (scrapeCardInfo_goos req w), snd (scrapeCardInfo_goos req w))"
      by (simp add: scrapeCardInfo_goos_def)
    from scrapeWithStandardMode_trace [OF this False] show ?thesis .
  qed
  have "scrapeCardInfo req w = (fst (scrapeCardInfo req w), snd (scrapeCardInfo req w))"
    by simp
  from scrapeCardInfo_trace [OF this]
  show "\<exists>new. attempts (fst (scrapeCardInfo req w)) = attempts w @ new
      \<and> ordered_trace schedule_app new (\<not> isl (snd (scrapeCardInfo req w)))
      \<and> expanded_after_shallow new" .
qed

text \<open>On a listing whose matching row needs the extra content, Windows makes three attempts
  under the first configuration and stops; the other systems make two.\<close>

theorem C6_attempts_in_order_witness:
  "ordered_trace (schedule_goos ''windows'')
      [(''secure'', False, False), (''secure'', False, False), (''secure'', True, True)]
      (\<not> isl (snd (scrapeCardInfo_goos (request ''NM'' ''English'' True)
                    (fresh_world ''windows'' pages_expanded_only))))
   \<and> expanded_after_shallow
      [(''secure'', False, False), (''secure'', False, False), (''secure'', True, True)]
   \<and> ordered_trace schedule_app [(''default'', False, False), (''default'', True, True)]
      (\<not> isl (snd (scrapeCardInfo (request ''NM'' ''English'' True)
                    (fresh_world ''linux'' pages_expanded_only))))
   \<and> expanded_after_shallow [(''default'', False, False), (''default'', True, True)]"
proof -
  let ?req = "request ''NM'' ''English'' True"
  let ?w = "fresh_world ''windows'' pages_expanded_only"
  let ?l = "fresh_world ''linux'' pages_expanded_only"
  have f: "filter (\<lambda>p. connect_ok ?w (fst p)) (schedule_goos (goos ?w)) = schedule_goos ''windows''"
    by (simp add: fresh_world_def)
  from C6_attempts_in_order [of ?req ?w, THEN conjunct1]
  have 1: "ordered_trace (schedule_goos ''windows'')
      [(''secure'', False, False), (''secure'', False, False), (''secure'', True, True)]
      (\<not> isl (snd (scrapeCardInfo_goos ?req ?w)))
   \<and> expanded_after_shallow
      [(''secure'', False, False), (''secure'', False, False), (''secure'', True, True)]"
    unfolding attempts_expanded_only f by (simp add: fresh_world_def)
  from C6_attempts_in_order [of ?req ?l, THEN conjunct2]
  have 2: "ordered_trace schedule_app [(''default'', False, False), (''default'', True, True)]
      (\<not> isl (snd (scrapeCardInfo ?req ?l)))
   \<and> expanded_after_shallow [(''default'', False, False), (''default'', True, True)]"
    unfolding attempts_expanded_only by (simp add: fresh_world_def)
  from 1 2 show ?thesis by simp
qed

section \<open>Claim C8: the enrichment never fails\<close>

text \<open>
  C8.  The enrichment step always returns a result and no error, in both versions
  (\<^verbatim>\<open>extractCardDetails\<close> and the end of \<^verbatim>\<open>scrapeCardInfo\<close> in app.go), and the result is as
  specified: the name is "Carte inconnue" when the heading is absent or empty and the
  trimmed heading otherwise; the set is the one read from the page if it is not empty, else
  the one the selected offer carries if it is not empty, else "Set inconnu"; likewise the
  rarity, with "Rarete inconnue" last.  And \<^verbatim>\<open>scrapeCardInfo\<close> of app.go returns a result and
  no error as soon as one of its two attempts has selected an offer.
\<close>

theorem C8_enrichment_never_fails:
  "(\<exists>info'. fst (extractCardDetails pg result info) = Inr info'
       \<and> details_as_specified pg result info')
   \<and> (\<exists>info'. fst (scrapeCardInfo_details pg result info) = Inr info'
       \<and> details_as_specified pg result info')
   \<and> (\<forall>w1 r. runLaunchLoop False ''default'' req False w = (w1, Some r) \<longrightarrow>
         (\<exists>info'. snd (scrapeCardInfo req w) = Inr info'))
   \<and> (\<forall>w1 w2 r. runLaunchLoop False ''default'' req False w = (w1, None)
         \<and> runLaunchLoop False ''default'' req True w1 = (w2, Some r) \<longrightarrow>
         (\<exists>info'. snd (scrapeCardInfo req w) = Inr info'))"
proof (intro conjI allI impI)
  show "\<exists>info'. fst (extractCardDetails pg result info) = Inr info'
       \<and> details_as_specified pg result info'"
    unfolding extractCardDetails_eq details_as_specified_def headingName_eq by simp
next
  show "\<exists>info'. fst (scrapeCardInfo_details pg result info) = Inr info'
       \<and> details_as_specified pg result info'"
    unfolding scrapeCardInfo_details_eq details_as_specified_def infoFieldTwice_eq headingName_eq
    by simp
next
  fix w1 r assume "runLaunchLoop False ''default'' req False w = (w1, Some r)"
  then show "\<exists>info'. snd (scrapeCardInfo req w) = Inr info'"
    by (simp add: scrapeCardInfo_def scrapeCardInfo_details_eq loadDetails_def)
next
  fix w1 w2 r
  assume "runLaunchLoop False ''default'' req False w = (w1, None)
         \<and> runLaunchLoop False ''default'' req True w1 = (w2, Some r)"
  then show "\<exists>info'. snd (scrapeCardInfo req w) = Inr info'"
    by (simp add: scrapeCardInfo_def scrapeCardInfo_details_eq loadDetails_def)
qed

text \<open>On a page without heading and info block the three sentinels appear; on a page that
  has them, the trimmed heading and the values of the page; and a scrape whose first or
  second attempt selects an offer returns a result.\<close>

theorem C8_enrichment_never_fails_witness:
  "(\<exists>info'. fst (extractCardDetails bare_page offer_nm_en_plain emptyInfo) = Inr info'
       \<and> info_Name info' = ''Carte inconnue'' \<and> info_Set info' = ''Set inconnu''
       \<and> info_Rarity info' = unknownRarity)
   \<and> (\<exists>info'. fst (scrapeCardInfo_details info_page offer_nm_en_plain emptyInfo) = Inr info'
       \<and> info_Name info' = ''Dark Magician'' \<and> info_Set info' = ''LOB''
       \<and> info_Rarity info' = ''Rare'')
   \<and> (\<exists>info'. snd (scrapeCardInfo (request ''NM'' ''English'' True)
                       (fresh_world ''linux'' pages_first_edition)) = Inr info')
   \<and> (\<exists>info'. snd (scrapeCardInfo (request ''NM'' ''English'' True)
                       (fresh_world ''linux'' pages_expanded_only)) = Inr info')"
proof (intro conjI)
  let ?req = "request ''NM'' ''English'' True"
  have b: "h1_text bare_page = None" "infoField bare_page ''set_name'' = []"
    "infoField bare_page ''rarity'' = []" "SetName offer_nm_en_plain = []"
    "Rarity offer_nm_en_plain = []"
    by (simp_all add: bare_page_def infoField_def offer_nm_en_plain_def)
  from C8_enrichment_never_fails [of bare_page offer_nm_en_plain emptyInfo, THEN conjunct1]
  show "\<exists>info'. fst (extractCardDetails bare_page offer_nm_en_plain emptyInfo) = Inr info'
       \<and> info_Name info' = ''Carte inconnue'' \<and> info_Set info' = ''Set inconnu''
       \<and> info_Rarity info' = unknownRarity"
    unfolding details_as_specified_def b by simp
  have i: "h1_text info_page = Some '' Dark Magician ''"
    "infoField info_page ''set_name'' = ''LOB''" "infoField info_page ''rarity'' = ''Rare''"
    by (simp_all add: info_page_def infoField_def trimmedField_def asString_def trim_fixture)
  from C8_enrichment_never_fails [of info_page offer_nm_en_plain emptyInfo,
      THEN conjunct2, THEN conjunct1]
  show "\<exists>info'. fst (scrapeCardInfo_details info_page offer_nm_en_plain emptyInfo) = Inr info'
       \<and> info_Name info' = ''Dark Magician'' \<and> info_Set info' = ''LOB''
       \<and> info_Rarity info' = ''Rare''"
    unfolding details_as_specified_def i by (simp add: trim_fixture)
  let ?w = "fresh_world ''linux'' pages_first_edition"
  obtain r where r: "launchLoop ''NM'' ''English'' True False first_edition_page = Some r"
    using launch_first_edition_page(1) by blast
  then have 1: "runLaunchLoop False ''default'' ?req False ?w =
      (fst (runLaunchLoop False ''default'' ?req False ?w), Some r)"
    by (simp add: runLaunchLoop_def fresh_world_def request_def pages_first_edition_def Let_def)
  from C8_enrichment_never_fails [of _ _ _ ?req ?w, THEN conjunct2, THEN conjunct2,
      THEN conjunct1, rule_format, OF 1]
  show "\<exists>info'. snd (scrapeCardInfo ?req ?w) = Inr info'" .
  let ?v = "fresh_world ''linux'' pages_expanded_only"
  obtain r' where r': "launchLoop ''NM'' ''English'' True True first_edition_page = Some r'"
    using launch_first_edition_page(1) by blast
  have 2: "runLaunchLoop False ''default'' ?req False ?v =
      (fst (runLaunchLoop False ''default'' ?req False ?v), None)"
    by (simp add: runLaunchLoop_def fresh_world_def request_def pages_expanded_only_def Let_def
        launch_table_page)
  have 3: "runLaunchLoop False ''default'' ?req True
             (fst (runLaunchLoop False ''default'' ?req False ?v)) =
      (fst (runLaunchLoop False ''default'' ?req True
              (fst (runLaunchLoop False ''default'' ?req False ?v))), Some r')"
    using r'
    by (simp add: runLaunchLoop_def fresh_world_def request_def pages_expanded_only_def Let_def)
  from C8_enrichment_never_fails [of _ _ _ ?req ?v, THEN conjunct2, THEN conjunct2,
      THEN conjunct2, rule_format, OF conjI [OF 2 3]]
  show "\<exists>info'. snd (scrapeCardInfo ?req ?v) = Inr info'" .
qed

section \<open>Claim C4: the error after every attempt has missed\<close>

text \<open>
  C4 at a failing input.  The listing always shows one offer, a first edition, and the
  request asks for the same card without first edition.  Every browser configuration
  connects.  On Windows the twelve attempts (three configurations, four attempts each) all
  complete without a find and the scrape fails with \<open>AllModesFailed\<close>, the message that the
  browser cannot be reached ("impossible de se connecter au navigateur ... Verifiez que
  Chrome ou Edge est installe"), which carries none of the criteria.  On the other
  systems the same request fails with \<open>NoMatchingCard\<close>, which echoes the three criteria, as
  does \<^verbatim>\<open>scrapeCardInfo\<close> of app.go.
\<close>

theorem C4_windows_exhaustion:
  "snd (scrapeCardInfo_goos (request ''NM'' ''English'' False)
          (fresh_world ''windows'' pages_first_edition)) = Inl AllModesFailed
   \<and> map hit (attempts (fst (scrapeCardInfo_goos (request ''NM'' ''English'' False)
          (fresh_world ''windows'' pages_first_edition)))) = replicate 12 False
   \<and> connect_ok (fresh_world ''windows'' pages_first_edition) ''secure''
   \<and> connect_ok (fresh_world ''windows'' pages_first_edition) ''permissive''
   \<and> connect_ok (fresh_world ''windows'' pages_first_edition) ''minimal''
   \<and> snd (scrapeCardInfo_goos (request ''NM'' ''English'' False)
          (fresh_world ''linux'' pages_first_edition)) =
       Inl (NoMatchingCard ''NM'' ''English'' False)
   \<and> snd (scrapeCardInfo (request ''NM'' ''English'' False)
          (fresh_world ''linux'' pages_first_edition)) =
       Inl (NoMatchingCard ''NM'' ''English'' False)"
  by (simp add: scrapeCardInfo_goos_def scrapeWithMultipleModes_def modes_def
      attemptScrapeWithMode_def scrapeWithRetries_def retryAttempts_def runLaunchLoop_def
      scrapeWithStandardMode_def scrapeCardInfo_def hit_def
      fresh_world_def request_def pages_first_edition_def loadDetails_def Let_def
      launch_first_edition_page numeral_eq_Suc)

section \<open>Claim C5: one promoted offer, and what the enrichment writes\<close>

lemma findTheCard_ref_spec:
  assumes "\<forall>p\<in>set ps. p < length mem"
    and "findTheCard_ref mem ps quality langue edition = (mem', r)"
  shows "prefix mem mem'
    \<and> (case r of
          None \<Rightarrow> findTheCard (map ((!) mem) ps) quality langue edition = None
        | Some row \<Rightarrow> length mem \<le> row \<and> row < length mem'
            \<and> findTheCard (map ((!) mem) ps) quality langue edition = Some (mem' ! row))"
  using assms
proof (induction ps arbitrary: mem)
  case Nil
  then show ?case by simp
next
  case (Cons p ps)
  let ?mem1 = "mem @ [mem ! p]"
  have row: "?mem1 ! length mem = mem ! p" by simp
  show ?case
  proof (cases "Mint (mem ! p) = quality \<and> Language (mem ! p) = langue
      \<and> Edition (mem ! p) = edition")
    case True
    with Cons.prems(2) have "mem' = ?mem1" "r = Some (length mem)"
      by (simp_all add: Let_def)
    with True show ?thesis by simp
  next
    case False
    with Cons.prems(2) have rec: "findTheCard_ref ?mem1 ps quality langue edition = (mem', r)"
      by (simp add: Let_def)
    from Cons.prems(1) have valid: "\<forall>p\<in>set ps. p < length ?mem1" by auto
    from Cons.prems(1) have same: "map ((!) ?mem1) ps = map ((!) mem) ps"
      by (auto simp: nth_append)
    from Cons.IH [OF valid rec] have ih: "prefix ?mem1 mem'
      \<and> (case r of
          None \<Rightarrow> findTheCard (map ((!) mem) ps) quality langue edition = None
        | Some row \<Rightarrow> length ?mem1 \<le> row \<and> row < length mem'
            \<and> findTheCard (map ((!) mem) ps) quality langue edition = Some (mem' ! row))"
      unfolding same .
    then have "prefix mem mem'" using append_prefixD by blast
    with ih False show ?thesis by (auto split: option.splits)
  qed
qed

lemma ref_memory:
  "fst (extractCardDetails_ref mem pg result info) =
     mem[result := snd (extractCardDetails pg (mem ! result) info)]"
  "fst (scrapeCardInfo_details_ref mem pg result info) =
     mem[result := snd (scrapeCardInfo_details pg (mem ! result) info)]"
  by (simp_all add: extractCardDetails_ref_def scrapeCardInfo_details_ref_def split: prod.splits)

lemma prefix_cells: "prefix mem mem' \<Longrightarrow> p < length mem \<Longrightarrow> mem' ! p = mem ! p"
  by (auto simp: prefix_def nth_append)

text \<open>
  C5, as stated, fails.  The store holds one offer, at address 0, without set and rarity;
  the matcher copies it to address 1 and returns that address.  On a page that names the set
  and the rarity, \<^verbatim>\<open>extractCardDetails\<close> writes both into the selected offer at address 1,
  and in app.go the offer that is promoted into \<open>Offers\<close> carries the values written.
\<close>

theorem C5_counterexample:
  "findTheCard_ref [offer_nm_en_plain] [0] ''NM'' ''English'' False =
     ([offer_nm_en_plain, offer_nm_en_plain], Some 1)
   \<and> SetName ([offer_nm_en_plain, offer_nm_en_plain] ! 1) = []
   \<and> Rarity ([offer_nm_en_plain, offer_nm_en_plain] ! 1) = []
   \<and> SetName (fst (extractCardDetails_ref [offer_nm_en_plain, offer_nm_en_plain]
                     info_page 1 emptyInfo) ! 1) = ''LOB''
   \<and> Rarity (fst (extractCardDetails_ref [offer_nm_en_plain, offer_nm_en_plain]
                    info_page 1 emptyInfo) ! 1) = ''Rare''
   \<and> map SetName (info_Offers (projr (snd (scrapeCardInfo_details_ref
        [offer_nm_en_plain, offer_nm_en_plain] info_page 1 emptyInfo)))) = [''LOB'']"
  by (simp add: extractCardDetails_ref_def scrapeCardInfo_details_ref_def
      extractCardDetails_eq scrapeCardInfo_details_eq infoFieldTwice_eq infoField_def
      info_page_def trimmedField_def asString_def trim_fixture offer_nm_en_plain_def Let_def)

text \<open>
  C5, amended.  When the matcher has selected an offer from a slice of valid addresses:
  \<^item> the selected offer is a fresh copy of the first matching element, at an address outside
    the slice;
  \<^item> both versions of the enrichment return a result whose \<open>Offers\<close> holds exactly one offer:
    in \<^verbatim>\<open>extractCardDetails\<close> the selected offer as it was before the enrichment, in app.go
    the selected offer as it is after it;
  \<^item> no element of the slice is changed;
  \<^item> the enrichment does write into the selected offer: its set and its rarity are
    overwritten by the values of the page that are not empty, and nothing else changes.
\<close>

theorem C5_one_offer_promoted:
  assumes "\<forall>p\<in>set slice. p < length mem"
    and "findTheCard_ref mem slice quality langue edition = (mem1, Some result)"
  shows "findTheCard (map ((!) mem) slice) quality langue edition = Some (mem1 ! result)
    \<and> result \<notin> set slice
    \<and> (\<exists>info'. snd (extractCardDetails_ref mem1 pg result info) = Inr info'
          \<and> info_Offers info' = [mem1 ! result])
    \<and> (\<exists>info'. snd (scrapeCardInfo_details_ref mem1 pg result info) = Inr info'
          \<and> info_Offers info' = [fst (scrapeCardInfo_details_ref mem1 pg result info) ! result])
    \<and> (\<forall>p\<in>set slice. fst (extractCardDetails_ref mem1 pg result info) ! p = mem ! p
          \<and> fst (scrapeCardInfo_details_ref mem1 pg result info) ! p = mem ! p)
    \<and> fst (extractCardDetails_ref mem1 pg result info) ! result =
        (mem1 ! result)
          \<lparr>SetName := (if infoField pg ''set_name'' \<noteq> [] then infoField pg ''set_name''
                        else SetName (mem1 ! result)),
           Rarity := (if infoField pg ''rarity'' \<noteq> [] then infoField pg ''rarity''
                      else Rarity (mem1 ! result))\<rparr>
    \<and> fst (scrapeCardInfo_details_ref mem1 pg result info) ! result =
        fst (extractCardDetails_ref mem1 pg result info) ! result"
proof -
  from findTheCard_ref_spec [OF assms] have pre: "prefix mem mem1"
    and lo: "length mem \<le> result" and hi: "result < length mem1"
    and sel: "findTheCard (map ((!) mem) slice) quality langue edition = Some (mem1 ! result)"
    by simp_all
  from assms(1) lo have out: "result \<notin> set slice" by auto
  have cells: "\<forall>p\<in>set slice. mem1 ! p = mem ! p \<and> p \<noteq> result"
    using assms(1) prefix_cells [OF pre] out by auto
  have 1: "\<exists>info'. snd (extractCardDetails_ref mem1 pg result info) = Inr info'
          \<and> info_Offers info' = [mem1 ! result]"
    by (simp add: extractCardDetails_ref_def extractCardDetails_eq)
  have 2: "\<exists>info'. snd (scrapeCardInfo_details_ref mem1 pg result info) = Inr info'
          \<and> info_Offers info' = [fst (scrapeCardInfo_details_ref mem1 pg result info) ! result]"
    using hi by (simp add: scrapeCardInfo_details_ref_def scrapeCardInfo_details_eq)
  have 3: "\<forall>p\<in>set slice. fst (extractCardDetails_ref mem1 pg result info) ! p = mem ! p
          \<and> fst (scrapeCardInfo_details_ref mem1 pg result info) ! p = mem ! p"
  proof
    fix p assume "p \<in> set slice"
    with cells have "mem1 ! p = mem ! p" "result \<noteq> p" by auto
    then show "fst (extractCardDetails_ref mem1 pg result info) ! p = mem ! p
          \<and> fst (scrapeCardInfo_details_ref mem1 pg result info) ! p = mem ! p"
      unfolding ref_memory by simp
  qed
  have 4: "fst (extractCardDetails_ref mem1 pg result info) ! result =
        (mem1 ! result)
          \<lparr>SetName := (if infoField pg ''set_name'' \<noteq> [] then infoField pg ''set_name''
                        else SetName (mem1 ! result)),
           Rarity := (if infoField pg ''rarity'' \<noteq> [] then infoField pg ''rarity''
                      else Rarity (mem1 ! result))\<rparr>"
    using hi by (simp add: extractCardDetails_ref_def extractCardDetails_eq)
  have 5: "fst (scrapeCardInfo_details_ref mem1 pg result info) ! result =
        fst (extractCardDetails_ref mem1 pg result info) ! result"
    using hi
    by (simp add: extractCardDetails_ref_def scrapeCardInfo_details_ref_def
        extractCardDetails_eq scrapeCardInfo_details_eq infoFieldTwice_eq)
  from sel out 1 2 3 4 5 show ?thesis by (intro conjI)
qed

theorem C5_one_offer_promoted_witness:
  "findTheCard (map ((!) [offer_nm_en_first, offer_nm_en_plain]) [0, 1]) ''NM'' ''English'' False
     = Some offer_nm_en_plain
   \<and> fst (findTheCard_ref [offer_nm_en_first, offer_nm_en_plain] [0, 1] ''NM'' ''English'' False)
     = [offer_nm_en_first, offer_nm_en_plain, offer_nm_en_first, offer_nm_en_plain]
   \<and> (\<exists>info'. snd (extractCardDetails_ref
          [offer_nm_en_first, offer_nm_en_plain, offer_nm_en_first, offer_nm_en_plain]
          info_page 3 emptyInfo) = Inr info' \<and> info_Offers info' = [offer_nm_en_plain])
   \<and> take 2 (fst (extractCardDetails_ref
          [offer_nm_en_first, offer_nm_en_plain, offer_nm_en_first, offer_nm_en_plain]
          info_page 3 emptyInfo)) = [offer_nm_en_first, offer_nm_en_plain]"
proof -
  let ?mem = "[offer_nm_en_first, offer_nm_en_plain]"
  let ?mem1 = "[offer_nm_en_first, offer_nm_en_plain, offer_nm_en_first, offer_nm_en_plain]"
  have v: "\<forall>p\<in>set [0, 1]. p < length ?mem" by simp
  have s: "findTheCard_ref ?mem [0, 1] ''NM'' ''English'' False = (?mem1, Some 3)"
    by (simp add: offer_nm_en_first_def offer_nm_en_plain_def Let_def)
  note t = C5_one_offer_promoted [OF v s, of info_page emptyInfo]
  from t have a: "findTheCard (map ((!) ?mem) [0, 1]) ''NM'' ''English'' False
     = Some offer_nm_en_plain" by simp
  from t have b: "\<exists>info'. snd (extractCardDetails_ref ?mem1 info_page 3 emptyInfo) = Inr info'
      \<and> info_Offers info' = [offer_nm_en_plain]" by simp
  from t have "\<forall>p\<in>set [0, 1]. fst (extractCardDetails_ref ?mem1 info_page 3 emptyInfo) ! p
      = ?mem ! p" by blast
  moreover have "length (fst (extractCardDetails_ref ?mem1 info_page 3 emptyInfo)) = 4"
    by (simp add: extractCardDetails_ref_def extractCardDetails_eq)
  ultimately have c: "take 2 (fst (extractCardDetails_ref ?mem1 info_page 3 emptyInfo)) = ?mem"
    by (simp add: list_eq_iff_nth_eq less_Suc_eq numeral_2_eq_2)
  from a b c s show ?thesis by simp
qed

section \<open>Claim C10: AddCard on a URL that is already stored\<close>

lemma find_unique:
  "distinct (map f xs) \<Longrightarrow> x \<in> set xs \<Longrightarrow> find (\<lambda>c. f c = f x) xs = Some x"
proof (induction xs)
  case Nil
  then show ?case by simp
next
  case (Cons y ys)
  show ?case
  proof (cases "f y = f x")
    case True
    with Cons.prems have "x = y" by (cases "x \<in> set ys") (auto simp: image_iff)
    with True show ?thesis by simp
  next
    case False
    with Cons show ?thesis by auto
  qed
qed

lemma getCardByURL_existing:
  assumes "schema_ok db" "existing \<in> set (db_rows db)"
  shows "getCardByURL db (card_CardURL existing) = Some existing"
  using assms find_unique [of card_CardURL "db_rows db" existing]
  by (simp add: getCardByURL_def schema_ok_def)

lemma update_unique:
  assumes "distinct (map g xs)" "x \<in> set xs"
  shows "map (\<lambda>c. if g c = g x then h c else c) xs = map (\<lambda>c. if c = x then h c else c) xs"
proof (rule map_cong [OF refl])
  fix c assume "c \<in> set xs"
  with assms have "g c = g x \<longleftrightarrow> c = x"
    by (metis distinct_map inj_on_eq_iff)
  then show "(if g c = g x then h c else c) = (if c = x then h c else c)" by simp
qed

lemma moveCard_keys:
  "map card_ID (db_rows (fst (moveCard now cardID newType db))) = map card_ID (db_rows db)"
  "map card_CardURL (db_rows (fst (moveCard now cardID newType db))) =
     map card_CardURL (db_rows db)"
  "db_seq (fst (moveCard now cardID newType db)) = db_seq db"
  "snd (moveCard now cardID newType db) = None"
  by (simp_all add: moveCard_def comp_def)

lemma fold_max_start: "a \<le> fold max xs (a::int)"
proof (induction xs arbitrary: a)
  case Nil
  show ?case by simp
next
  case (Cons x xs)
  have "a \<le> max x a" by simp
  also have "\<dots> \<le> fold max xs (max x a)" by (rule Cons.IH)
  finally show ?case by simp
qed

lemma fold_max_ge: "\<forall>x\<in>set xs. x \<le> fold max xs (a::int)"
proof (induction xs arbitrary: a)
  case Nil
  show ?case by simp
next
  case (Cons x xs)
  have "x \<le> max x a" by simp
  also have "\<dots> \<le> fold max xs (max x a)" by (rule fold_max_start)
  finally have "x \<le> fold max (x # xs) a" by simp
  with Cons show ?case by simp
qed

lemma insertCard_schema:
  assumes "schema_ok db"
  shows "schema_ok (fst (insertCard newCard db))"
proof (cases "card_CardURL newCard \<in> set (map card_CardURL (db_rows db))")
  case True
  with assms show ?thesis by (simp add: insertCard_def)
next
  case False
  let ?m = "fold max (map card_ID (db_rows db)) 0"
  let ?newId = "max (db_seq db) ?m + 1"
  have "\<forall>c\<in>set (db_rows db). card_ID c \<le> ?m"
    using fold_max_ge [of "map card_ID (db_rows db)" 0] by simp
  then have "\<forall>c\<in>set (db_rows db). card_ID c < ?newId" by fastforce
  then have "?newId \<notin> card_ID ` set (db_rows db)" by auto
  with False assms show ?thesis
    by (simp add: insertCard_def schema_ok_def Let_def)
qed

lemma AddCard_schema:
  assumes "schema_ok db"
  shows "schema_ok (snd (fst (AddCard now req (w, db))))"
proof (cases "getCardByURL db (req_URL req)")
  case (Some existingCard)
  obtain db' where m: "moveCard now (card_ID existingCard) (req_Type req) db = (db', None)"
    by (simp add: moveCard_def)
  have "schema_ok (fst (moveCard now (card_ID existingCard) (req_Type req) db))"
    using assms unfolding schema_ok_def moveCard_keys by simp
  with m have "schema_ok db'" by simp
  with Some assms m show ?thesis by (simp add: AddCard_def)
next
  case None
  show ?thesis
  proof (cases "scrapeCardInfo req w")
    case (Pair w' res)
    show ?thesis
    proof (cases res)
      case (Inl err)
      with None Pair assms show ?thesis
        by (cases err) (simp_all add: AddCard_def)
    next
      case (Inr cardInfo)
      define newCard where "newCard =
          \<lparr>card_ID = 0, card_Name = info_Name cardInfo, card_Set = info_Set cardInfo,
           card_Rarity = info_Rarity cardInfo, card_Price = info_Price cardInfo,
           card_PriceNum = info_PriceNum cardInfo,
           card_ImageURL = info_ImageURL cardInfo, card_CardURL = req_URL req,
           card_Type = req_Type req, card_AddedAt = now, card_LastUpdated = now,
           card_Quality = req_Quality req, card_Language = req_Language req,
           card_Edition = req_Edition req,
           card_TotalOffers = length (info_Offers cardInfo)\<rparr>"
      obtain db' r where i: "insertCard newCard db = (db', r)" by (cases "insertCard newCard db")
      with insertCard_schema [OF assms, of newCard] have "schema_ok db'" by simp
      with None Pair Inr i show ?thesis
        unfolding newCard_def by (cases r) (simp_all add: AddCard_def Let_def)
    qed
  qed
qed

text \<open>
  C10.  Let the store satisfy its schema (ids and URLs are keys) and hold a card with the
  URL of the request.  Then \<^verbatim>\<open>AddCard\<close>
  \<^item> leaves the world of the scraper unchanged (no page is loaded, no attempt is made);
  \<^item> inserts no record: the URLs of the rows, in order, are those of before;
  \<^item> with the same partition as the stored card: returns the error "already in your list"
    and the store is unchanged;
  \<^item> with another partition: sets the partition of that row (and its update time) and of
    no other row, and returns the stored card with the requested partition.
  Moreover every call of \<^verbatim>\<open>AddCard\<close>, whatever the request, keeps ids and URLs distinct: the
  store never holds two records for one URL.
\<close>

theorem C10_existing_url:
  assumes "schema_ok db" "existing \<in> set (db_rows db)" "card_CardURL existing = req_URL req"
  shows "fst (fst (AddCard now req (w, db))) = w
    \<and> map card_CardURL (db_rows (snd (fst (AddCard now req (w, db))))) =
        map card_CardURL (db_rows db)
    \<and> (card_Type existing = req_Type req \<longrightarrow>
          snd (AddCard now req (w, db)) = Inl (AlreadyInList (req_Type req))
          \<and> snd (fst (AddCard now req (w, db))) = db)
    \<and> (card_Type existing \<noteq> req_Type req \<longrightarrow>
          snd (AddCard now req (w, db)) = Inr (existing\<lparr>card_Type := req_Type req\<rparr>)
          \<and> db_rows (snd (fst (AddCard now req (w, db)))) =
              map (\<lambda>c. if c = existing
                        then c\<lparr>card_Type := req_Type req, card_LastUpdated := now\<rparr> else c)
                  (db_rows db)
          \<and> db_seq (snd (fst (AddCard now req (w, db)))) = db_seq db)
    \<and> (\<forall>req' w'. schema_ok (snd (fst (AddCard now req' (w', db)))))"
proof -
  from getCardByURL_existing [OF assms(1,2)] assms(3)
  have g: "getCardByURL db (req_URL req) = Some existing" by simp
  have u: "map (\<lambda>c. if card_ID c = card_ID existing
                     then c\<lparr>card_Type := req_Type req, card_LastUpdated := now\<rparr> else c)
               (db_rows db) =
           map (\<lambda>c. if c = existing
                     then c\<lparr>card_Type := req_Type req, card_LastUpdated := now\<rparr> else c)
               (db_rows db)"
    using assms(1,2) by (intro update_unique) (simp_all add: schema_ok_def)
  show ?thesis
  proof (cases "card_Type existing = req_Type req")
    case True
    with g show ?thesis using AddCard_schema [OF assms(1)] by (simp add: AddCard_def)
  next
    case False
    have m: "moveCard now (card_ID existing) (req_Type req) db =
        (db\<lparr>db_rows := map (\<lambda>c. if c = existing
                     then c\<lparr>card_Type := req_Type req, card_LastUpdated := now\<rparr> else c)
               (db_rows db)\<rparr>, None)"
      unfolding moveCard_def u ..
    have k: "map card_CardURL (map (\<lambda>c. if c = existing
                     then c\<lparr>card_Type := req_Type req, card_LastUpdated := now\<rparr> else c)
               (db_rows db)) = map card_CardURL (db_rows db)"
      by (simp add: comp_def)
    from False g m k show ?thesis using AddCard_schema [OF assms(1)] by (simp add: AddCard_def)
  qed
qed

text \<open>The stored card is in the collection.  A request for the wishlist moves it; a request
  for the collection is refused; in both cases the store keeps its single row.\<close>

theorem C10_existing_url_witness:
  "schema_ok store_one \<and> stored_card \<in> set (db_rows store_one)
   \<and> snd (AddCard ''2024-02-02 12:00:00'' (request ''NM'' ''English'' False)
            (fresh_world ''linux'' pages_first_edition, store_one)) =
       Inr (stored_card\<lparr>card_Type := ''wishlist''\<rparr>)
   \<and> db_rows (snd (fst (AddCard ''2024-02-02 12:00:00'' (request ''NM'' ''English'' False)
                           (fresh_world ''linux'' pages_first_edition, store_one)))) =
       [stored_card\<lparr>card_Type := ''wishlist'', card_LastUpdated := ''2024-02-02 12:00:00''\<rparr>]
   \<and> fst (fst (AddCard ''2024-02-02 12:00:00'' (request ''NM'' ''English'' False)
                  (fresh_world ''linux'' pages_first_edition, store_one))) =
       fresh_world ''linux'' pages_first_edition
   \<and> snd (AddCard ''2024-02-02 12:00:00''
            ((request ''NM'' ''English'' False)\<lparr>req_Type := ''collection''\<rparr>)
            (fresh_world ''linux'' pages_first_edition, store_one)) =
       Inl (AlreadyInList ''collection'')
   \<and> snd (fst (AddCard ''2024-02-02 12:00:00''
            ((request ''NM'' ''English'' False)\<lparr>req_Type := ''collection''\<rparr>)
            (fresh_world ''linux'' pages_first_edition, store_one))) = store_one"
proof -
  let ?now = "''2024-02-02 12:00:00''"
  let ?w = "fresh_world ''linux'' pages_first_edition"
  let ?move = "request ''NM'' ''English'' False"
  let ?same = "(request ''NM'' ''English'' False)\<lparr>req_Type := ''collection''\<rparr>"
  have h1: "schema_ok store_one" by (simp add: schema_ok_def store_one_def)
  have h2: "stored_card \<in> set (db_rows store_one)" by (simp add: store_one_def)
  have h3: "card_CardURL stored_card = req_URL ?move" "card_CardURL stored_card = req_URL ?same"
    by (simp_all add: stored_card_def request_def)
  have ty: "card_Type stored_card \<noteq> req_Type ?move" "card_Type stored_card = req_Type ?same"
    "req_Type ?move = ''wishlist''" "req_Type ?same = ''collection''"
    by (simp_all add: stored_card_def request_def)
  note m = C10_existing_url [OF h1 h2 h3(1), of ?now ?w]
  note s = C10_existing_url [OF h1 h2 h3(2), of ?now ?w]
  from m have m1: "fst (fst (AddCard ?now ?move (?w, store_one))) = ?w" by (rule conjunct1)
  from m [THEN conjunct2, THEN conjunct2, THEN conjunct2, THEN conjunct1, rule_format, OF ty(1)]
  have m2: "snd (AddCard ?now ?move (?w, store_one)) = Inr (stored_card\<lparr>card_Type := ''wishlist''\<rparr>)"
    and m3: "db_rows (snd (fst (AddCard ?now ?move (?w, store_one)))) =
       [stored_card\<lparr>card_Type := ''wishlist'', card_LastUpdated := ?now\<rparr>]"
    unfolding ty(3) by (simp_all add: store_one_def)
  from s [THEN conjunct2, THEN conjunct2, THEN conjunct1, rule_format, OF ty(2)]
  have s1: "snd (AddCard ?now ?same (?w, store_one)) = Inl (AlreadyInList ''collection'')"
    and s2: "snd (fst (AddCard ?now ?same (?w, store_one))) = store_one"
    unfolding ty(4) by simp_all
  from h1 h2 m1 m2 m3 s1 s2 show ?thesis by (intro conjI)
qed

end
